theory Spec2Isabelle
  imports Main
begin

section \<open>JavaScript values used as identifiers\<close>

text \<open>
  The webhook payload is parsed JSON. The fields the handlers read as identifiers
  (\<^verbatim>\<open>chat.id\<close>, \<^verbatim>\<open>message.id\<close>, \<^verbatim>\<open>agent.id\<close>, \<^verbatim>\<open>event\<close>) are
  primitive values: absent (\<^verbatim>\<open>undefined\<close>), \<^verbatim>\<open>null\<close>, a boolean, a number or a
  string. \<open>truthy\<close> is JavaScript's conversion to boolean, which every
  \<^verbatim>\<open>if (x)\<close>, \<^verbatim>\<open>!x\<close>, \<^verbatim>\<open>a && b\<close> and \<^verbatim>\<open>a || b\<close> of the source applies.
\<close>

datatype jsval = JUndefined | JNull | JBool bool | JNum int | JStr string

fun truthy :: "jsval \<Rightarrow> bool" where
  "truthy JUndefined = False"
| "truthy JNull = False"
| "truthy (JBool b) = b"
| "truthy (JNum n) = (n \<noteq> 0)"
| "truthy (JStr s) = (s \<noteq> [])"

section \<open>Message deduplication (services/webhook-helpers.js)\<close>

text \<open>
  \<^verbatim>\<open>processedMessages\<close> is a \<^verbatim>\<open>Map\<close> from message id to the \<^verbatim>\<open>Date.now()\<close> of
  marking, in milliseconds. The clock is passed in explicitly.
\<close>

type_synonym dedup_store = "jsval \<rightharpoonup> int"

definition MESSAGE_EXPIRY_MS :: int where
  "MESSAGE_EXPIRY_MS = 5 * 60 * 1000"

text \<open>The body of the \<^verbatim>\<open>setInterval\<close> callback, run every minute with the current time.\<close>

definition sweep :: "int \<Rightarrow> dedup_store \<Rightarrow> dedup_store" where
  "sweep now processedMessages =
     (\<lambda>messageId. case processedMessages messageId of
        None \<Rightarrow> None
      | Some timestamp \<Rightarrow>
          if now - timestamp > MESSAGE_EXPIRY_MS then None else Some timestamp)"

definition isDuplicateMessage :: "dedup_store \<Rightarrow> jsval \<Rightarrow> bool" where
  "isDuplicateMessage processedMessages messageId =
     (if \<not> truthy messageId then False
      else processedMessages messageId \<noteq> None)"

definition markMessageProcessed :: "int \<Rightarrow> jsval \<Rightarrow> dedup_store \<Rightarrow> dedup_store" where
  "markMessageProcessed now messageId processedMessages =
     (if truthy messageId then processedMessages(messageId \<mapsto> now)
      else processedMessages)"

text \<open>
  A history of the store: calls of \<^verbatim>\<open>markMessageProcessed\<close> and runs of the sweep,
  each with the clock value it read, applied in order to a store.
\<close>

datatype dedup_op = MarkOp jsval int | SweepOp int

fun apply_dedup_op :: "dedup_store \<Rightarrow> dedup_op \<Rightarrow> dedup_store" where
  "apply_dedup_op pm (MarkOp messageId now) = markMessageProcessed now messageId pm"
| "apply_dedup_op pm (SweepOp now) = sweep now pm"

definition run_dedup :: "dedup_op list \<Rightarrow> dedup_store \<Rightarrow> dedup_store" where
  "run_dedup ops pm = foldl apply_dedup_op pm ops"

fun marks :: "jsval \<Rightarrow> dedup_op \<Rightarrow> bool" where
  "marks m (MarkOp messageId now) = (messageId = m)"
| "marks m (SweepOp now) = False"

section \<open>Multi-user response tracker (services/multi-user-tracker.js)\<close>

text \<open>
  The tracker keeps its state in the interview-state file of
  \<^verbatim>\<open>services/group-profile-storage.js\<close>: a JSON object from chat id to that chat's
  interview state, whose key \<^verbatim>\<open>questionResponseTracking\<close> holds the tracking state.
  Every function reads the file, works on the parsed copy and writes the file back, so
  the file is passed in and returned. User ids are strings, the id lists are JavaScript
  arrays (order and repetitions kept).
\<close>

record tracking =
  currentQuestionId :: "string option"
  currentQuestionTimestamp :: "int option"
  expectedUserIds :: "string list"
  respondedUserIds :: "string list"
  questionCount :: nat

text \<open>
  An interview state: the tracking state when the key is present, and the other keys of
  the object, which the tracker carries along untouched.
\<close>

record interview =
  questionResponseTracking :: "tracking option"
  otherKeys :: "string \<rightharpoonup> string"

type_synonym state_file = "string \<rightharpoonup> interview"

definition getInterviewState :: "state_file \<Rightarrow> string \<Rightarrow> interview option" where
  "getInterviewState file chatId = file chatId"

definition setInterviewState :: "state_file \<Rightarrow> string \<Rightarrow> interview \<Rightarrow> state_file" where
  "setInterviewState file chatId interviewState = file(chatId \<mapsto> interviewState)"

text \<open>The object literal \<^verbatim>\<open>{}\<close> that stands in for a chat with no interview state.\<close>

definition emptyInterview :: interview where
  "emptyInterview = \<lparr>questionResponseTracking = None, otherKeys = Map.empty\<rparr>"

definition initialTracking :: tracking where
  "initialTracking =
     \<lparr>currentQuestionId = None, currentQuestionTimestamp = None,
      expectedUserIds = [], respondedUserIds = [], questionCount = 0\<rparr>"

definition getResponseState :: "state_file \<Rightarrow> string \<Rightarrow> tracking" where
  "getResponseState file chatId =
     (case getInterviewState file chatId of
        None \<Rightarrow> initialTracking
      | Some state \<Rightarrow>
          (case questionResponseTracking state of
             None \<Rightarrow> initialTracking
           | Some responseState \<Rightarrow> responseState))"

definition saveResponseState :: "state_file \<Rightarrow> string \<Rightarrow> tracking \<Rightarrow> state_file" where
  "saveResponseState file chatId responseState =
     (let state = (case getInterviewState file chatId of
                     None \<Rightarrow> emptyInterview | Some s \<Rightarrow> s)
      in setInterviewState file chatId
           (state\<lparr>questionResponseTracking := Some responseState\<rparr>))"

text \<open>
  \<^verbatim>\<open>startQuestionTracking\<close>. The question id is the text \<^verbatim>\<open>question_\<close> followed by the
  clock value and a random suffix; \<open>suffix\<close> is that generated text, \<open>now\<close> the clock.
  The function returns the new tracking state; the file is returned beside it.
\<close>

definition startQuestionTracking ::
  "state_file \<Rightarrow> string \<Rightarrow> string list \<Rightarrow> int \<Rightarrow> string \<Rightarrow> state_file \<times> tracking" where
  "startQuestionTracking file chatId expected now suffix =
     (let responseState =
        \<lparr>currentQuestionId = Some (''question_'' @ suffix),
         currentQuestionTimestamp = Some now,
         expectedUserIds = expected,
         respondedUserIds = [],
         questionCount = questionCount (getResponseState file chatId) + 1\<rparr>
      in (saveResponseState file chatId responseState, responseState))"

text \<open>\<^verbatim>\<open>!responseState.currentQuestionId\<close>: null and the empty string both count as no question.\<close>

definition noQuestionTracked :: "tracking \<Rightarrow> bool" where
  "noQuestionTracked responseState =
     (case currentQuestionId responseState of None \<Rightarrow> True | Some q \<Rightarrow> q = [])"

record record_result =
  allResponded :: bool
  responseState :: tracking

definition recordUserResponse ::
  "state_file \<Rightarrow> string \<Rightarrow> string \<Rightarrow> state_file \<times> record_result" where
  "recordUserResponse file chatId userId =
     (let rs = getResponseState file chatId in
      if noQuestionTracked rs then (file, \<lparr>allResponded = False, responseState = rs\<rparr>)
      else
        let (file', rs') =
              (if userId \<notin> set (respondedUserIds rs)
               then (let pushed = rs\<lparr>respondedUserIds := respondedUserIds rs @ [userId]\<rparr>
                     in (saveResponseState file chatId pushed, pushed))
               else (file, rs));
            everyone = (length (expectedUserIds rs') > 0
                        \<and> list_all (\<lambda>id. id \<in> set (respondedUserIds rs')) (expectedUserIds rs'))
        in (file', \<lparr>allResponded = everyone, responseState = rs'\<rparr>))"

definition clearQuestionTracking :: "state_file \<Rightarrow> string \<Rightarrow> state_file" where
  "clearQuestionTracking file chatId =
     (let state = (case getInterviewState file chatId of
                     None \<Rightarrow> emptyInterview | Some s \<Rightarrow> s)
      in setInterviewState file chatId
           (state\<lparr>questionResponseTracking :=
              Some \<lparr>currentQuestionId = None, currentQuestionTimestamp = None,
                    expectedUserIds = [], respondedUserIds = [],
                    questionCount =
                      (case questionResponseTracking state of
                         None \<Rightarrow> 0 | Some t \<Rightarrow> questionCount t)\<rparr>\<rparr>))"

definition isWaitingForResponses :: "state_file \<Rightarrow> string \<Rightarrow> bool" where
  "isWaitingForResponses file chatId =
     (let rs = getResponseState file chatId in
      currentQuestionId rs \<noteq> None
      \<and> length (expectedUserIds rs) > 0
      \<and> length (respondedUserIds rs) < length (expectedUserIds rs))"

text \<open>
  The inclusion the data model states for a chat's tracking state: every recorded
  responder is an expected one.
\<close>

definition respondedWithinExpected :: "state_file \<Rightarrow> string \<Rightarrow> bool" where
  "respondedWithinExpected file chatId =
     (set (respondedUserIds (getResponseState file chatId))
        \<subseteq> set (expectedUserIds (getResponseState file chatId)))"

section \<open>Outbound delivery client (core/BaseA1ZapClient.js)\<close>

text \<open>
  A thrown error, with the fields the code reads: \<^verbatim>\<open>error.response.status\<close> when the
  server answered, \<^verbatim>\<open>error.code\<close> for a network failure, and \<^verbatim>\<open>error.message\<close>.
\<close>

record js_error =
  response_status :: "nat option"
  code :: "string option"
  message :: string

definition plainError :: "string \<Rightarrow> js_error" where
  "plainError msg = \<lparr>response_status = None, code = None, message = msg\<rparr>"

record client_config =
  apiKey :: string
  agentId :: string
  apiUrl :: string
  agentName :: string

definition startsWith :: "string \<Rightarrow> string \<Rightarrow> bool" where
  "startsWith s p = (take (length p) s = p)"

definition isPlaceholder :: "string \<Rightarrow> bool" where
  "isPlaceholder v =
     (v = [] \<or> startsWith v ''your_'' \<or> startsWith v ''YOUR_''
      \<or> v = ''undefined'' \<or> v = ''null'')"

text \<open>
  \<^verbatim>\<open>_validateApiKey\<close>: \<open>Some\<close> error when it throws. The thrown messages are long
  instructions; only their headline is kept here.
\<close>

definition validateApiKey :: "client_config \<Rightarrow> js_error option" where
  "validateApiKey cfg =
     (if isPlaceholder (apiKey cfg) then Some (plainError ''API KEY NOT CONFIGURED!'')
      else if isPlaceholder (agentId cfg) then Some (plainError ''AGENT ID NOT CONFIGURED!'')
      else None)"

text \<open>
  The request body posted to \<^verbatim>\<open>${apiUrl}/${agentId}/send\<close>. Rich content blocks are
  attached only when the array is present and not empty; \<open>media\<close> is present on a
  media message only.
\<close>

record media =
  url :: string
  contentType :: string
  dimensions :: "(nat \<times> nat) option"

record 'b payload =
  payload_chatId :: jsval
  payload_content :: jsval
  payload_richContentBlocks :: "'b list option"
  payload_media :: "media option"
  payload_source :: string
  payload_messageType :: "string option"

text \<open>
  The network is outside the program: \<open>post body k\<close> is what the \<open>k\<close>-th call of
  \<^verbatim>\<open>axios.post\<close> within one send does, a response with data or a rejection with
  an error. The events record, in order, each call made and each delay slept.
\<close>

datatype 'd outcome = Responded 'd | Rejected js_error

datatype send_event = Post nat | Wait nat

definition maxRetries :: nat where
  "maxRetries = 3"

definition retryDelay :: nat where
  "retryDelay = 1000"

definition isRetryable :: "js_error \<Rightarrow> bool" where
  "isRetryable error =
     ((case response_status error of None \<Rightarrow> False | Some s \<Rightarrow> s \<ge> 500)
      \<or> (case response_status error of None \<Rightarrow> False | Some s \<Rightarrow> s = 429)
      \<or> code error = Some ''ECONNRESET''
      \<or> code error = Some ''ETIMEDOUT''
      \<or> code error = Some ''ENOTFOUND'')"

text \<open>
  The retry loop of \<^verbatim>\<open>sendMessage\<close>, from attempt number \<open>attempt\<close> on, with the
  \<^verbatim>\<open>lastError\<close> variable. Leaving the loop throws \<^verbatim>\<open>lastError\<close>; were it still
  undefined, the logging of the enclosing \<^verbatim>\<open>catch\<close> would fail on it with a
  TypeError, which is what gets thrown then.
\<close>

function retryLoop ::
  "(nat \<Rightarrow> 'd outcome) \<Rightarrow> nat \<Rightarrow> js_error option \<Rightarrow> send_event list \<times> (js_error + 'd)" where
  "retryLoop post attempt lastError =
     (if attempt \<le> maxRetries then
        (case post attempt of
           Responded d \<Rightarrow> ([Post attempt], Inr d)
         | Rejected error \<Rightarrow>
             if isRetryable error \<and> attempt < maxRetries
             then (let delay = retryDelay * attempt;
                       (events, result) = retryLoop post (attempt + 1) (Some error)
                   in (Post attempt # Wait delay # events, result))
             else ([Post attempt], Inl error))
      else (case lastError of
              Some error \<Rightarrow> ([], Inl error)
            | None \<Rightarrow> ([], Inl (plainError ''TypeError: Cannot read properties of undefined''))))"
  by pat_completeness auto
termination
  by (relation "measure (\<lambda>(post, attempt, lastError). maxRetries + 1 - attempt)") auto

declare retryLoop.simps [simp del]

definition textPayload :: "client_config \<Rightarrow> jsval \<Rightarrow> jsval \<Rightarrow> 'b list option \<Rightarrow> 'b payload" where
  "textPayload cfg chatId content richContentBlocks =
     \<lparr>payload_chatId = chatId,
      payload_content = content,
      payload_richContentBlocks =
        (case richContentBlocks of
           None \<Rightarrow> None
         | Some blocks \<Rightarrow> if length blocks > 0 then Some blocks else None),
      payload_media = None,
      payload_source = agentName cfg @ ''-agent'',
      payload_messageType = None\<rparr>"

definition sendMessage ::
  "client_config \<Rightarrow> ('b payload \<Rightarrow> nat \<Rightarrow> 'd outcome) \<Rightarrow> jsval \<Rightarrow> jsval \<Rightarrow> 'b list option
     \<Rightarrow> send_event list \<times> (js_error + 'd)" where
  "sendMessage cfg post chatId content richContentBlocks =
     (case validateApiKey cfg of
        Some error \<Rightarrow> ([], Inl error)
      | None \<Rightarrow> retryLoop (post (textPayload cfg chatId content richContentBlocks)) 1 None)"

text \<open>
  \<^verbatim>\<open>sendMediaMessage\<close>. \<open>options\<close> carries \<^verbatim>\<open>contentType\<close>, \<^verbatim>\<open>width\<close> and
  \<^verbatim>\<open>height\<close>; a missing or empty content type becomes \<^verbatim>\<open>image/png\<close>, and the
  dimensions are attached when both are present and not zero. Logging
  \<^verbatim>\<open>content.length\<close> fails on an absent or null content, before anything is posted.
\<close>

record media_options =
  opt_contentType :: "string option"
  opt_width :: "nat option"
  opt_height :: "nat option"

definition mediaPayload ::
  "client_config \<Rightarrow> jsval \<Rightarrow> jsval \<Rightarrow> string \<Rightarrow> media_options \<Rightarrow> 'b payload" where
  "mediaPayload cfg chatId content mediaUrl options =
     \<lparr>payload_chatId = chatId,
      payload_content = content,
      payload_richContentBlocks = None,
      payload_media =
        Some \<lparr>url = mediaUrl,
              contentType =
                (case opt_contentType options of
                   None \<Rightarrow> ''image/png''
                 | Some t \<Rightarrow> if t = [] then ''image/png'' else t),
              dimensions =
                (case (opt_width options, opt_height options) of
                   (Some w, Some h) \<Rightarrow> if w \<noteq> 0 \<and> h \<noteq> 0 then Some (w, h) else None
                 | _ \<Rightarrow> None)\<rparr>,
      payload_source = agentName cfg @ ''-agent'',
      payload_messageType = Some ''media''\<rparr>"

definition sendMediaMessage ::
  "client_config \<Rightarrow> ('b payload \<Rightarrow> nat \<Rightarrow> 'd outcome) \<Rightarrow> jsval \<Rightarrow> jsval \<Rightarrow> string
     \<Rightarrow> media_options \<Rightarrow> send_event list \<times> (js_error + 'd)" where
  "sendMediaMessage cfg post chatId content mediaUrl options =
     (case validateApiKey cfg of
        Some error \<Rightarrow> ([], Inl error)
      | None \<Rightarrow>
          if content = JUndefined \<or> content = JNull
          then ([], Inl (plainError ''TypeError: Cannot read properties of undefined''))
          else
          (case post (mediaPayload cfg chatId content mediaUrl options) 1 of
             Responded d \<Rightarrow> ([Post 1], Inr d)
           | Rejected error \<Rightarrow> ([Post 1], Inl error)))"

text \<open>
  The calls and delays of a send that makes \<open>n\<close> attempts: attempt \<open>k\<close>, then a delay
  of \<open>retryDelay * k\<close>, for each \<open>k\<close> below \<open>n\<close>, then attempt \<open>n\<close>.
\<close>

definition attemptSchedule :: "nat \<Rightarrow> send_event list" where
  "attemptSchedule n =
     concat (map (\<lambda>k. [Post k, Wait (retryDelay * k)]) [1..<n]) @ [Post n]"

fun isPost :: "send_event \<Rightarrow> bool" where
  "isPost (Post k) = True"
| "isPost (Wait d) = False"

fun isWait :: "send_event \<Rightarrow> bool" where
  "isWait (Post k) = False"
| "isWait (Wait d) = True"

definition httpError :: "nat \<Rightarrow> js_error" where
  "httpError s =
     \<lparr>response_status = Some s, code = None,
      message = ''Request failed with status code''\<rparr>"

text \<open>
  What a run of the loop from attempt 1 looks like: some \<open>n\<close> between 1 and 3 attempts
  are made on the schedule, every attempt before the last was rejected with a
  retryable error, and the result is the outcome of the last attempt, which is final
  either because it succeeded, or its error is not retryable, or it was attempt 3.
\<close>

definition runOf ::
  "(nat \<Rightarrow> 'd outcome) \<Rightarrow> send_event list \<times> (js_error + 'd) \<Rightarrow> nat \<Rightarrow> bool" where
  "runOf post r n =
     (1 \<le> n \<and> n \<le> maxRetries
      \<and> fst r = attemptSchedule n
      \<and> list_all (\<lambda>k. case post k of Responded d \<Rightarrow> False | Rejected e \<Rightarrow> isRetryable e)
           [1..<n]
      \<and> (case post n of
            Responded d \<Rightarrow> snd r = Inr d
          | Rejected e \<Rightarrow> snd r = Inl e \<and> (isRetryable e \<longrightarrow> n = maxRetries)))"

section \<open>Webhook pipeline (core/BaseWebhook.js)\<close>

text \<open>
  The fields of the request body that the handler reads. A field of a missing object
  reads as undefined, as the optional chaining of the source gives.
\<close>

record request_body =
  event :: jsval
  chat_id :: jsval
  agent_id :: jsval
  message_id :: jsval
  message_content :: jsval
  message_media_url :: jsval
  root_chatId :: jsval
  metadata_chatId :: jsval
  root_userName :: jsval
  metadata_userName :: jsval
  root_isAnonymous :: jsval
  metadata_isAnonymous :: jsval

text \<open>\<^verbatim>\<open>a || b\<close> on values.\<close>

definition orElse :: "jsval \<Rightarrow> jsval \<Rightarrow> jsval" where
  "orElse a b = (if truthy a then a else b)"

record webhook_data =
  data_chatId :: jsval
  data_agentId :: jsval
  data_messageId :: jsval
  data_userMessage :: jsval
  data_imageUrl :: jsval

text \<open>
  \<^verbatim>\<open>extractWebhookData\<close>: the error text when \<^verbatim>\<open>valid\<close> is false, the extracted
  data otherwise.
\<close>

definition extractWebhookData :: "request_body \<Rightarrow> string + webhook_data" where
  "extractWebhookData body =
     (if \<not> truthy (chat_id body) then Inl ''Missing chat.id in webhook payload''
      else Inr \<lparr>data_chatId = chat_id body,
                data_agentId = agent_id body,
                data_messageId = message_id body,
                data_userMessage = orElse (message_content body) (JStr []),
                data_imageUrl = orElse (message_media_url body) JNull\<rparr>)"

text \<open>
  \<^verbatim>\<open>isTestChat\<close> is \<^verbatim>\<open>chatId && chatId.startsWith('test-')\<close>, always read as a
  condition: the result here is its truth value. A falsy id gives false without the
  method call; a true boolean or a non-zero number has no \<^verbatim>\<open>startsWith\<close>, and the
  call throws a TypeError.
\<close>

fun isTestChat :: "jsval \<Rightarrow> js_error + bool" where
  "isTestChat (JStr s) = Inr (s \<noteq> [] \<and> startsWith s ''test-'')"
| "isTestChat JUndefined = Inr False"
| "isTestChat JNull = Inr False"
| "isTestChat (JBool b) =
     (if b then Inl (plainError ''TypeError: chatId.startsWith is not a function'')
      else Inr False)"
| "isTestChat (JNum n) =
     (if n \<noteq> 0 then Inl (plainError ''TypeError: chatId.startsWith is not a function'')
      else Inr False)"

text \<open>
  What \<^verbatim>\<open>processRequest\<close> returns, as far as the base class reads it: \<^verbatim>\<open>sent\<close>,
  \<^verbatim>\<open>imageUrl\<close>, \<^verbatim>\<open>response\<close> and \<^verbatim>\<open>richContentBlocks\<close>.
\<close>

record 'b result =
  result_sent :: jsval
  result_imageUrl :: jsval
  result_response :: jsval
  result_richContentBlocks :: "'b list option"

text \<open>
  The collaborators of a handler: the agent (name, welcome message), the client
  (message history, sending), the formatting of the fetched history, and the
  subclass's \<^verbatim>\<open>processRequest\<close>. Each may throw; \<open>Inl\<close> is the thrown error. What
  they compute lies outside the pipeline and is not interpreted.
\<close>

record ('m, 'c, 'b) collaborators =
  agent_name :: string
  getWelcomeMessage :: "jsval \<Rightarrow> jsval \<Rightarrow> js_error + jsval"
  getMessageHistory :: "jsval \<Rightarrow> nat \<Rightarrow> jsval \<Rightarrow> js_error + 'm list"
  processMessageHistory :: "'m list \<Rightarrow> jsval \<Rightarrow> bool \<Rightarrow> js_error + 'c list"
  processRequest :: "webhook_data \<Rightarrow> 'c list \<Rightarrow> js_error + 'b result"
  clientSendMessage :: "jsval \<Rightarrow> jsval \<Rightarrow> 'b list option \<Rightarrow> js_error + unit"

text \<open>
  The calls a handler makes on what lies outside it, in order: the two deduplication
  helpers, the history fetch, the agent's welcome message, the subclass's
  \<^verbatim>\<open>processRequest\<close>, and \<^verbatim>\<open>client.sendMessage\<close> with the chat id and the content.
\<close>

datatype effect =
    DedupCheck jsval
  | DedupMark jsval
  | HistoryFetch jsval
  | WelcomeHook
  | DomainHook
  | Deliver jsval jsval

text \<open>
  The response written to \<^verbatim>\<open>res\<close>:
  \<^item> \<open>ValidationFailed error\<close>: status 400, \<^verbatim>\<open>{success: false, error}\<close>;
  \<^item> \<open>DuplicateSkipped id\<close>: \<^verbatim>\<open>{success: true, skipped: true, reason: 'duplicate_message', messageId}\<close>;
  \<^item> \<open>Handled agent result testMode\<close>: \<^verbatim>\<open>{success: true, agent, ...result, testMode}\<close>;
  \<^item> \<open>Failed error\<close>: status 500, \<^verbatim>\<open>{success: false, error}\<close>;
  \<^item> \<open>ChatStarted agent userName\<close>: \<^verbatim>\<open>{success: true, event: 'chat.started', agent, welcomeMessageSent: true, userName}\<close>;
  \<^item> \<open>ChatStartedInvalid error\<close>: status 400, \<^verbatim>\<open>{success: false, error}\<close>;
  \<^item> \<open>ChatStartedFailed error\<close>: status 500, \<^verbatim>\<open>{success: false, error, event: 'chat.started'}\<close>.
\<close>

datatype 'b response =
    ValidationFailed string
  | DuplicateSkipped jsval
  | Handled string "'b result" bool
  | Failed string
  | ChatStarted string jsval
  | ChatStartedInvalid string
  | ChatStartedFailed string

fun http_status :: "'b response \<Rightarrow> nat" where
  "http_status (ValidationFailed e) = 400"
| "http_status (DuplicateSkipped i) = 200"
| "http_status (Handled a r t) = 200"
| "http_status (Failed e) = 500"
| "http_status (ChatStarted a u) = 200"
| "http_status (ChatStartedInvalid e) = 400"
| "http_status (ChatStartedFailed e) = 500"

fun success :: "'b response \<Rightarrow> bool" where
  "success (ValidationFailed e) = False"
| "success (DuplicateSkipped i) = True"
| "success (Handled a r t) = True"
| "success (Failed e) = False"
| "success (ChatStarted a u) = True"
| "success (ChatStartedInvalid e) = False"
| "success (ChatStartedFailed e) = False"

fun skipped :: "'b response \<Rightarrow> bool" where
  "skipped (DuplicateSkipped i) = True"
| "skipped r = False"

fun reason :: "'b response \<Rightarrow> string option" where
  "reason (DuplicateSkipped i) = Some ''duplicate_message''"
| "reason r = None"

fun error_of :: "'b response \<Rightarrow> string option" where
  "error_of (ValidationFailed e) = Some e"
| "error_of (Failed e) = Some e"
| "error_of (ChatStartedInvalid e) = Some e"
| "error_of (ChatStartedFailed e) = Some e"
| "error_of r = None"

subsection \<open>Helpers of services/webhook-helpers.js\<close>

text \<open>
  \<^verbatim>\<open>fetchAndProcessHistory\<close>: no fetch without a chat id and an agent id; a failure
  of the fetch or of the formatting is caught and gives the empty conversation.
\<close>

definition fetchAndProcessHistory ::
  "('m, 'c, 'b) collaborators \<Rightarrow> jsval \<Rightarrow> jsval \<Rightarrow> nat \<Rightarrow> bool \<Rightarrow> effect list \<times> 'c list" where
  "fetchAndProcessHistory env chatId agentId' limit includeImages =
     (if \<not> truthy chatId \<or> \<not> truthy agentId' then ([], [])
      else
        (case getMessageHistory env chatId limit agentId' of
           Inl error \<Rightarrow> ([HistoryFetch chatId], [])
         | Inr history \<Rightarrow>
             if length history > 0
             then (case processMessageHistory env history agentId' includeImages of
                     Inl error \<Rightarrow> ([HistoryFetch chatId], [])
                   | Inr conversation \<Rightarrow> ([HistoryFetch chatId], conversation))
             else ([HistoryFetch chatId], [])))"

text \<open>
  \<^verbatim>\<open>webhookHelpers.sendResponse\<close>: skipped for a test chat; a failure of
  \<^verbatim>\<open>client.sendMessage\<close> is caught and \<^verbatim>\<open>null\<close> returned. The returned value is not
  used by the caller; what remains is the effect and whether \<^verbatim>\<open>isTestChat\<close> threw.
\<close>

definition helperSendResponse ::
  "('m, 'c, 'b) collaborators \<Rightarrow> jsval \<Rightarrow> jsval \<Rightarrow> 'b list option
     \<Rightarrow> effect list \<times> (js_error + unit)" where
  "helperSendResponse env chatId msg richContentBlocks =
     (case isTestChat chatId of
        Inl error \<Rightarrow> ([], Inl error)
      | Inr True \<Rightarrow> ([], Inr ())
      | Inr False \<Rightarrow>
          (case clientSendMessage env chatId msg richContentBlocks of
             Inl error \<Rightarrow> ([Deliver chatId msg], Inr ())
           | Inr sent \<Rightarrow> ([Deliver chatId msg], Inr ())))"

subsection \<open>The methods of BaseWebhook\<close>

definition shouldIncludeImagesInHistory :: bool where
  "shouldIncludeImagesInHistory = False"

definition getHistoryLimit :: nat where
  "getHistoryLimit = 10"

definition fetchConversationHistory ::
  "('m, 'c, 'b) collaborators \<Rightarrow> webhook_data \<Rightarrow> effect list \<times> 'c list" where
  "fetchConversationHistory env data =
     fetchAndProcessHistory env (data_chatId data) (data_agentId data)
       getHistoryLimit shouldIncludeImagesInHistory"

definition sendResponse ::
  "('m, 'c, 'b) collaborators \<Rightarrow> jsval \<Rightarrow> 'b result \<Rightarrow> effect list \<times> (js_error + unit)" where
  "sendResponse env chatId result =
     (case isTestChat chatId of
        Inl error \<Rightarrow> ([], Inl error)
      | Inr True \<Rightarrow> ([], Inr ())
      | Inr False \<Rightarrow>
          if truthy (result_sent result) then ([], Inr ())
          else if truthy (result_imageUrl result) then ([], Inr ())
          else if truthy (result_response result)
          then helperSendResponse env chatId (result_response result)
                 (result_richContentBlocks result)
          else ([], Inr ()))"

definition getErrorMessage :: string where
  "getErrorMessage =
     ''I apologize, but I encountered an error processing your request. ''
     @ ''Please try again or contact support if the issue persists.''"

text \<open>
  \<^verbatim>\<open>handleError\<close>: the notification is tried inside a \<^verbatim>\<open>try\<close> whose \<^verbatim>\<open>catch\<close> only
  logs, so neither a failing \<^verbatim>\<open>isTestChat\<close> nor a failing send changes what follows.
\<close>

definition handleError ::
  "('m, 'c, 'b) collaborators \<Rightarrow> request_body \<Rightarrow> js_error \<Rightarrow> effect list \<times> 'b response" where
  "handleError env body error =
     (let chatId = chat_id body;
          notified =
            (if truthy chatId
             then (case isTestChat chatId of
                     Inl sendError \<Rightarrow> []
                   | Inr True \<Rightarrow> []
                   | Inr False \<Rightarrow>
                       (case clientSendMessage env chatId (JStr getErrorMessage) None of
                          Inl sendError \<Rightarrow> [Deliver chatId (JStr getErrorMessage)]
                        | Inr sent \<Rightarrow> [Deliver chatId (JStr getErrorMessage)]))
             else [])
      in (notified, Failed (message error)))"

definition handleChatStarted ::
  "('m, 'c, 'b) collaborators \<Rightarrow> request_body \<Rightarrow> effect list \<times> 'b response" where
  "handleChatStarted env body =
     (let chatId = orElse (root_chatId body) (metadata_chatId body);
          userName = orElse (root_userName body) (metadata_userName body);
          isAnonymous = orElse (root_isAnonymous body) (metadata_isAnonymous body)
      in if \<not> truthy chatId then ([], ChatStartedInvalid ''Missing chatId in webhook payload'')
         else
           (case getWelcomeMessage env userName isAnonymous of
              Inl error \<Rightarrow> ([WelcomeHook], ChatStartedFailed (message error))
            | Inr welcomeMessage \<Rightarrow>
                (case isTestChat chatId of
                   Inl error \<Rightarrow> ([WelcomeHook], ChatStartedFailed (message error))
                 | Inr True \<Rightarrow>
                     ([WelcomeHook],
                      ChatStarted (agent_name env) (orElse userName (JStr ''Anonymous'')))
                 | Inr False \<Rightarrow>
                     (case clientSendMessage env chatId welcomeMessage None of
                        Inl error \<Rightarrow>
                          ([WelcomeHook, Deliver chatId welcomeMessage],
                           ChatStartedFailed (message error))
                      | Inr sent \<Rightarrow>
                          ([WelcomeHook, Deliver chatId welcomeMessage],
                           ChatStarted (agent_name env)
                             (orElse userName (JStr ''Anonymous'')))))))"

text \<open>
  \<^verbatim>\<open>handle\<close> in two parts. \<open>handleStart\<close> is what runs before the first \<^verbatim>\<open>await\<close>:
  routing of \<^verbatim>\<open>chat.started\<close>, validation, the duplicate check and the marking.
  It either produces the response or leaves the extracted data for the rest.
  The welcome flow never touches the store, so it is run here as a whole.
\<close>

datatype 'b progress = Done "'b response" | Pending webhook_data

definition handleStart ::
  "('m, 'c, 'b) collaborators \<Rightarrow> int \<Rightarrow> request_body \<Rightarrow> dedup_store
     \<Rightarrow> dedup_store \<times> effect list \<times> 'b progress" where
  "handleStart env now body processedMessages =
     (if event body = JStr ''chat.started''
      then (let (effects, response) = handleChatStarted env body
            in (processedMessages, effects, Done response))
      else
        (case extractWebhookData body of
           Inl error \<Rightarrow> (processedMessages, [], Done (ValidationFailed error))
         | Inr data \<Rightarrow>
             if isDuplicateMessage processedMessages (data_messageId data)
             then (processedMessages, [DedupCheck (data_messageId data)],
                   Done (DuplicateSkipped (data_messageId data)))
             else (markMessageProcessed now (data_messageId data) processedMessages,
                   [DedupCheck (data_messageId data), DedupMark (data_messageId data)],
                   Pending data)))"

text \<open>
  Steps 4 to 7 of \<^verbatim>\<open>handle\<close>, inside its \<^verbatim>\<open>try\<close>: history, \<^verbatim>\<open>processRequest\<close>,
  \<^verbatim>\<open>sendResponse\<close>, and the success response. \<open>Inl\<close> is an error thrown on the way.
\<close>

definition processAndRespond ::
  "('m, 'c, 'b) collaborators \<Rightarrow> webhook_data \<Rightarrow> effect list \<times> (js_error + 'b response)" where
  "processAndRespond env data =
     (let (fetched, conversation) = fetchConversationHistory env data in
      case processRequest env data conversation of
        Inl error \<Rightarrow> (fetched @ [DomainHook], Inl error)
      | Inr result \<Rightarrow>
          (case sendResponse env (data_chatId data) result of
             (sending, Inl error) \<Rightarrow> (fetched @ [DomainHook] @ sending, Inl error)
           | (sending, Inr done) \<Rightarrow>
               (case isTestChat (data_chatId data) of
                  Inl error \<Rightarrow> (fetched @ [DomainHook] @ sending, Inl error)
                | Inr testMode \<Rightarrow>
                    (fetched @ [DomainHook] @ sending,
                     Inr (Handled (agent_name env) result testMode)))))"

text \<open>The rest of \<^verbatim>\<open>handle\<close> after the marking, with the \<^verbatim>\<open>catch\<close> around it.\<close>

definition handleRest ::
  "('m, 'c, 'b) collaborators \<Rightarrow> request_body \<Rightarrow> webhook_data \<Rightarrow> effect list \<times> 'b response" where
  "handleRest env body data =
     (case processAndRespond env data of
        (effects, Inr response) \<Rightarrow> (effects, response)
      | (effects, Inl error) \<Rightarrow>
          (let (notified, response) = handleError env body error
           in (effects @ notified, response)))"

definition handle ::
  "('m, 'c, 'b) collaborators \<Rightarrow> int \<Rightarrow> request_body \<Rightarrow> dedup_store
     \<Rightarrow> dedup_store \<times> effect list \<times> 'b response" where
  "handle env now body processedMessages =
     (case handleStart env now body processedMessages of
        (store, effects, Done response) \<Rightarrow> (store, effects, response)
      | (store, effects, Pending data) \<Rightarrow>
          (let (later, response) = handleRest env body data
           in (store, effects @ later, response)))"

fun isDomainEffect :: "effect \<Rightarrow> bool" where
  "isDomainEffect DomainHook = True"
| "isDomainEffect (Deliver c m) = True"
| "isDomainEffect e = False"

fun isDeliver :: "effect \<Rightarrow> bool" where
  "isDeliver (Deliver c m) = True"
| "isDeliver e = False"

fun isDedupEffect :: "effect \<Rightarrow> bool" where
  "isDedupEffect (DedupCheck i) = True"
| "isDedupEffect (DedupMark i) = True"
| "isDedupEffect e = False"

subsection \<open>Several requests in flight\<close>

text \<open>
  Node runs one handler at a time until it awaits. A request in flight is therefore
  either not yet started, suspended after \<open>handleStart\<close> with its extracted data, or
  finished. A schedule is a sequence of events: \<open>Run i now\<close> lets request \<open>i\<close>
  take its next step with the clock at \<open>now\<close>, \<open>Timer now\<close> is a run of the cleanup
  interval. The steps after the marking touch no shared state, so they are taken as
  one step. Each request has its own collaborators' behaviour (\<open>envs i\<close>); the log
  tags every effect with the request that caused it.
\<close>

datatype 'b task = Queued request_body | Awaiting request_body webhook_data | Finished "'b response"

record 'b system =
  sys_store :: dedup_store
  sys_tasks :: "'b task list"
  sys_log :: "(nat \<times> effect) list"

datatype sched_event = Run nat int | Timer int

fun event_time :: "sched_event \<Rightarrow> int" where
  "event_time (Run i now) = now"
| "event_time (Timer now) = now"

fun step ::
  "(nat \<Rightarrow> ('m, 'c, 'b) collaborators) \<Rightarrow> 'b system \<Rightarrow> sched_event \<Rightarrow> 'b system" where
  "step envs s (Timer now) = s\<lparr>sys_store := sweep now (sys_store s)\<rparr>"
| "step envs s (Run i now) =
     (if i < length (sys_tasks s) then
        (case sys_tasks s ! i of
           Queued body \<Rightarrow>
             (case handleStart (envs i) now body (sys_store s) of
                (store, effects, Done response) \<Rightarrow>
                  \<lparr>sys_store = store,
                   sys_tasks = (sys_tasks s)[i := Finished response],
                   sys_log = sys_log s @ map (Pair i) effects\<rparr>
              | (store, effects, Pending data) \<Rightarrow>
                  \<lparr>sys_store = store,
                   sys_tasks = (sys_tasks s)[i := Awaiting body data],
                   sys_log = sys_log s @ map (Pair i) effects\<rparr>)
         | Awaiting body data \<Rightarrow>
             (let (effects, response) = handleRest (envs i) body data
              in \<lparr>sys_store = sys_store s,
                  sys_tasks = (sys_tasks s)[i := Finished response],
                  sys_log = sys_log s @ map (Pair i) effects\<rparr>)
         | Finished response \<Rightarrow> s)
      else s)"

definition submitted :: "dedup_store \<Rightarrow> request_body list \<Rightarrow> 'b system" where
  "submitted store bodies =
     \<lparr>sys_store = store, sys_tasks = map Queued bodies, sys_log = []\<rparr>"

definition run_schedule ::
  "(nat \<Rightarrow> ('m, 'c, 'b) collaborators) \<Rightarrow> sched_event list \<Rightarrow> 'b system \<Rightarrow> 'b system" where
  "run_schedule envs schedule s = foldl (step envs) s schedule"

text \<open>Request \<open>i\<close> has invoked the domain hook or the delivery client.\<close>

definition invoked :: "nat \<Rightarrow> 'b system \<Rightarrow> bool" where
  "invoked i s = list_ex (\<lambda>(j, e). j = i \<and> isDomainEffect e) (sys_log s)"

text \<open>Every event of the schedule reads a clock value within one expiry period after \<open>t0\<close>.\<close>

definition withinWindow :: "int \<Rightarrow> sched_event list \<Rightarrow> bool" where
  "withinWindow t0 schedule =
     list_all (\<lambda>ev. t0 \<le> event_time ev \<and> event_time ev \<le> t0 + MESSAGE_EXPIRY_MS) schedule"

section \<open>Example collaborators and requests\<close>

text \<open>
  Concrete collaborators for the worked examples: an agent whose \<^verbatim>\<open>processRequest\<close>
  answers with a text, and one whose \<^verbatim>\<open>processRequest\<close> throws. History is empty and
  sending succeeds.
\<close>

definition replyResult :: "unit result" where
  "replyResult =
     \<lparr>result_sent = JUndefined, result_imageUrl = JUndefined,
      result_response = JStr ''Hello!'', result_richContentBlocks = None\<rparr>"

definition replyingAgent :: "(unit, unit, unit) collaborators" where
  "replyingAgent =
     \<lparr>agent_name = ''mandy'',
      getWelcomeMessage = (\<lambda>userName isAnonymous. Inr (JStr ''Welcome!'')),
      getMessageHistory = (\<lambda>chatId limit agent. Inr []),
      processMessageHistory = (\<lambda>history agent includeImages. Inr []),
      processRequest = (\<lambda>data conversation. Inr replyResult),
      clientSendMessage = (\<lambda>chatId content blocks. Inr ())\<rparr>"

definition failingAgent :: "(unit, unit, unit) collaborators" where
  "failingAgent = replyingAgent\<lparr>processRequest := (\<lambda>data conversation. Inl (plainError ''boom''))\<rparr>"

definition messageEvent :: "jsval \<Rightarrow> jsval \<Rightarrow> request_body" where
  "messageEvent chatId messageId =
     \<lparr>event = JStr ''message.received'',
      chat_id = chatId,
      agent_id = JStr ''agent-1'',
      message_id = messageId,
      message_content = JStr ''hi'',
      message_media_url = JUndefined,
      root_chatId = JUndefined,
      metadata_chatId = JUndefined,
      root_userName = JUndefined,
      metadata_userName = JUndefined,
      root_isAnonymous = JUndefined,
      metadata_isAnonymous = JUndefined\<rparr>"

definition workingClient :: client_config where
  "workingClient =
     \<lparr>apiKey = ''k-123'', agentId = ''agent-1'',
      apiUrl = ''https://api.a1zap.com/v1/messages/individual'', agentName = ''mandy''\<rparr>"

text \<open>A network that rejects the first call with status 500 and answers every later one.\<close>

definition failsOnce :: "unit payload \<Rightarrow> nat \<Rightarrow> nat outcome" where
  "failsOnce body k = (if k < 2 then Rejected (httpError 500) else Responded 200)"

section \<open>The invariant of requests in flight\<close>

text \<open>
  A request carries the message id \<open>m\<close> when it is not a \<^verbatim>\<open>chat.started\<close> event and
  its \<^verbatim>\<open>message.id\<close> is \<open>m\<close>. Request \<open>i\<close> has marked \<open>m\<close> when its call of
  \<^verbatim>\<open>markMessageProcessed(m)\<close> is in the log.
\<close>

definition carries :: "jsval \<Rightarrow> request_body \<Rightarrow> bool" where
  "carries m body = (event body \<noteq> JStr ''chat.started'' \<and> message_id body = m)"

definition marked :: "jsval \<Rightarrow> nat \<Rightarrow> 'b system \<Rightarrow> bool" where
  "marked m i s = ((i, DedupMark m) \<in> set (sys_log s))"

fun isAwaiting :: "'b task \<Rightarrow> bool" where
  "isAwaiting (Awaiting body data) = True"
| "isAwaiting t = False"

text \<open>
  What holds of every state reached within the window that starts at \<open>t0\<close>: a request
  not yet started still has its submitted body; a carrier of \<open>m\<close> that is suspended or
  has invoked the hook or the delivery client has marked \<open>m\<close>; at most one request has
  marked \<open>m\<close>; and once one has, \<open>m\<close> is in the store with a time stamp of the window.
\<close>

definition inFlightInvariant ::
  "request_body list \<Rightarrow> jsval \<Rightarrow> int \<Rightarrow> 'b system \<Rightarrow> bool" where
  "inFlightInvariant bodies m t0 s =
     (length (sys_tasks s) = length bodies
      \<and> (\<forall>i b. i < length bodies \<and> sys_tasks s ! i = Queued b \<longrightarrow> b = bodies ! i)
      \<and> (\<forall>i. i < length bodies \<and> carries m (bodies ! i)
               \<and> (invoked i s \<or> isAwaiting (sys_tasks s ! i)) \<longrightarrow> marked m i s)
      \<and> (\<forall>i j. marked m i s \<and> marked m j s \<longrightarrow> i = j)
      \<and> ((\<exists>i. marked m i s) \<longrightarrow> (\<exists>ts. sys_store s m = Some ts \<and> t0 \<le> ts)))"

section \<open>Properties of the deduplication store\<close>

lemma sweep_None: "pm m = None \<Longrightarrow> sweep now pm m = None"
  by (simp add: sweep_def)

lemma sweep_keeps:
  "pm m = Some ts \<Longrightarrow> now - ts \<le> MESSAGE_EXPIRY_MS \<Longrightarrow> sweep now pm m = Some ts"
  by (simp add: sweep_def)

lemma sweep_expires:
  "pm m = Some ts \<Longrightarrow> now - ts > MESSAGE_EXPIRY_MS \<Longrightarrow> sweep now pm m = None"
  by (simp add: sweep_def)

lemma mark_other: "messageId \<noteq> m \<Longrightarrow> markMessageProcessed now messageId pm m = pm m"
  by (simp add: markMessageProcessed_def)

lemma mark_same: "truthy m \<Longrightarrow> markMessageProcessed now m pm m = Some now"
  by (simp add: markMessageProcessed_def)

lemma apply_unmarked_None:
  "\<not> marks m op \<Longrightarrow> pm m = None \<Longrightarrow> apply_dedup_op pm op m = None"
  by (cases op) (simp_all add: mark_other sweep_None)

lemma run_unmarked_None:
  "\<not> list_ex (marks m) ops \<Longrightarrow> pm m = None \<Longrightarrow> run_dedup ops pm m = None"
  unfolding run_dedup_def
  by (induction ops arbitrary: pm) (simp_all add: apply_unmarked_None)

lemma apply_unmarked_Some:
  "\<not> marks m op \<Longrightarrow> pm m = Some ts \<Longrightarrow>
   apply_dedup_op pm op m = None \<or> apply_dedup_op pm op m = Some ts"
  by (cases op) (auto simp: mark_other sweep_def)

lemma run_unmarked_Some:
  "\<not> list_ex (marks m) ops \<Longrightarrow> pm m = Some ts \<Longrightarrow>
   run_dedup ops pm m = None \<or> run_dedup ops pm m = Some ts"
proof (induction ops arbitrary: pm)
  case Nil
  then show ?case by (simp add: run_dedup_def)
next
  case (Cons op ops)
  from Cons.prems have um: "\<not> marks m op" and rest: "\<not> list_ex (marks m) ops"
    by simp_all
  have step: "run_dedup (op # ops) pm = run_dedup ops (apply_dedup_op pm op)"
    by (simp add: run_dedup_def)
  from apply_unmarked_Some [of m op pm ts] um Cons.prems(2)
  have "apply_dedup_op pm op m = None \<or> apply_dedup_op pm op m = Some ts"
    by simp
  then show ?case
  proof
    assume "apply_dedup_op pm op m = None"
    then show ?thesis
      using run_unmarked_None [of m ops "apply_dedup_op pm op"] rest step by simp
  next
    assume "apply_dedup_op pm op m = Some ts"
    then show ?thesis
      using Cons.IH [of "apply_dedup_op pm op"] rest step by simp
  qed
qed

text \<open>
  C4. Lifecycle of a message id \<open>m\<close>. Starting from the empty store the module
  creates, as long as \<^verbatim>\<open>markMessageProcessed(m)\<close> has not been called
  \<^verbatim>\<open>isDuplicateMessage(m)\<close> is false; immediately after the call it is true, for
  every id that is present (a missing, null or empty id is never stored: that case is
  C9); and once more than \<open>MESSAGE_EXPIRY_MS\<close> (5 minutes) has elapsed since the
  marking and a sweep runs, with no other call for \<open>m\<close> in between, it is false
  again. Marking \<^verbatim>\<open>"m1"\<close> at 0 ms gives true at 0 ms and false after a sweep at
  301000 ms.
\<close>

theorem dedup_ttl_lifecycle:
  "(\<not> list_ex (marks m) before \<longrightarrow>
      \<not> isDuplicateMessage (run_dedup before Map.empty) m)
   \<and> (truthy m \<longrightarrow> isDuplicateMessage (markMessageProcessed t m pm) m)
   \<and> (\<not> list_ex (marks m) between \<and> now - t > MESSAGE_EXPIRY_MS \<longrightarrow>
        \<not> isDuplicateMessage
            (sweep now (run_dedup between (markMessageProcessed t m pm))) m)
   \<and> MESSAGE_EXPIRY_MS = 300000
   \<and> isDuplicateMessage (markMessageProcessed 0 (JStr ''m1'') Map.empty) (JStr ''m1'')
   \<and> \<not> isDuplicateMessage
         (sweep 301000 (markMessageProcessed 0 (JStr ''m1'') Map.empty)) (JStr ''m1'')"
proof -
  have a: "\<not> list_ex (marks m) before \<longrightarrow>
             \<not> isDuplicateMessage (run_dedup before Map.empty) m"
    using run_unmarked_None [of m before Map.empty]
    by (simp add: isDuplicateMessage_def)
  have b: "truthy m \<longrightarrow> isDuplicateMessage (markMessageProcessed t m pm) m"
    by (simp add: isDuplicateMessage_def mark_same)
  have c: "\<not> list_ex (marks m) between \<and> now - t > MESSAGE_EXPIRY_MS \<longrightarrow>
             \<not> isDuplicateMessage
                 (sweep now (run_dedup between (markMessageProcessed t m pm))) m"
  proof (cases "truthy m")
    case False
    then show ?thesis by (simp add: isDuplicateMessage_def)
  next
    case True
    show ?thesis
    proof (intro impI, elim conjE)
      assume um: "\<not> list_ex (marks m) between" and late: "now - t > MESSAGE_EXPIRY_MS"
      have "markMessageProcessed t m pm m = Some t"
        using True by (rule mark_same)
      with run_unmarked_Some [of m between "markMessageProcessed t m pm" t] um
      have "run_dedup between (markMessageProcessed t m pm) m = None
          \<or> run_dedup between (markMessageProcessed t m pm) m = Some t"
        by simp
      then have "sweep now (run_dedup between (markMessageProcessed t m pm)) m = None"
        using late by (auto simp: sweep_None sweep_expires)
      then show "\<not> isDuplicateMessage
                   (sweep now (run_dedup between (markMessageProcessed t m pm))) m"
        by (simp add: isDuplicateMessage_def)
    qed
  qed
  have d: "MESSAGE_EXPIRY_MS = 300000"
    by (simp add: MESSAGE_EXPIRY_MS_def)
  have e: "isDuplicateMessage (markMessageProcessed 0 (JStr ''m1'') Map.empty) (JStr ''m1'')"
    by (simp add: isDuplicateMessage_def markMessageProcessed_def)
  have f: "\<not> isDuplicateMessage
             (sweep 301000 (markMessageProcessed 0 (JStr ''m1'') Map.empty)) (JStr ''m1'')"
    by (simp add: isDuplicateMessage_def markMessageProcessed_def sweep_def
          MESSAGE_EXPIRY_MS_def)
  from a b c d e f show ?thesis by blast
qed

theorem dedup_ttl_lifecycle_witness:
  "truthy (JStr ''m1'')
   \<and> \<not> list_ex (marks (JStr ''m1'')) [MarkOp (JStr ''m0'') 5, SweepOp 70000]
   \<and> \<not> isDuplicateMessage
         (run_dedup [MarkOp (JStr ''m0'') 5, SweepOp 70000] Map.empty) (JStr ''m1'')
   \<and> isDuplicateMessage (markMessageProcessed 100 (JStr ''m1'') Map.empty) (JStr ''m1'')
   \<and> \<not> list_ex (marks (JStr ''m1'')) [SweepOp 60000, MarkOp (JStr ''m2'') 61000]
   \<and> (400101::int) - 100 > MESSAGE_EXPIRY_MS
   \<and> \<not> isDuplicateMessage
         (sweep 400101
            (run_dedup [SweepOp 60000, MarkOp (JStr ''m2'') 61000]
               (markMessageProcessed 100 (JStr ''m1'') Map.empty)))
         (JStr ''m1'')"
proof -
  have h: "truthy (JStr ''m1'')" by simp
  have u1: "\<not> list_ex (marks (JStr ''m1'')) [MarkOp (JStr ''m0'') 5, SweepOp 70000]"
    by simp
  have u2: "\<not> list_ex (marks (JStr ''m1'')) [SweepOp 60000, MarkOp (JStr ''m2'') 61000]"
    by simp
  have late: "(400101::int) - 100 > MESSAGE_EXPIRY_MS"
    by (simp add: MESSAGE_EXPIRY_MS_def)
  from dedup_ttl_lifecycle [of "JStr ''m1''" "[MarkOp (JStr ''m0'') 5, SweepOp 70000]" 100
      Map.empty "[SweepOp 60000, MarkOp (JStr ''m2'') 61000]" 400101]
  show ?thesis using h u1 u2 late by blast
qed

section \<open>Properties of the response tracker\<close>

lemma getResponseState_save:
  "getResponseState (saveResponseState file chatId rs) c =
     (if c = chatId then rs else getResponseState file c)"
  by (simp add: getResponseState_def saveResponseState_def getInterviewState_def
        setInterviewState_def Let_def)

lemma getResponseState_start:
  "getResponseState (fst (startQuestionTracking file chatId ids now sfx)) c =
     (if c = chatId
      then \<lparr>currentQuestionId = Some (''question_'' @ sfx),
            currentQuestionTimestamp = Some now,
            expectedUserIds = ids,
            respondedUserIds = [],
            questionCount = questionCount (getResponseState file chatId) + 1\<rparr>
      else getResponseState file c)"
  by (simp add: startQuestionTracking_def Let_def getResponseState_save)

lemma getResponseState_clear:
  "getResponseState (clearQuestionTracking file chatId) c =
     (if c = chatId
      then initialTracking\<lparr>questionCount := questionCount (getResponseState file chatId)\<rparr>
      else getResponseState file c)"
  by (simp add: clearQuestionTracking_def getResponseState_def getInterviewState_def
        setInterviewState_def emptyInterview_def initialTracking_def Let_def
      split: option.splits)

lemma getResponseState_record:
  "getResponseState (fst (recordUserResponse file chatId userId)) c =
     (if c = chatId \<and> \<not> noQuestionTracked (getResponseState file chatId)
         \<and> userId \<notin> set (respondedUserIds (getResponseState file chatId))
      then (getResponseState file chatId)
             \<lparr>respondedUserIds := respondedUserIds (getResponseState file chatId) @ [userId]\<rparr>
      else getResponseState file c)"
  by (simp add: recordUserResponse_def Let_def getResponseState_save)

text \<open>
  C2, as the code has it. \<^verbatim>\<open>startQuestionTracking\<close> and \<^verbatim>\<open>clearQuestionTracking\<close>
  leave every chat's recorded responders within its expected users (they empty the
  list of the chat they touch), and \<^verbatim>\<open>recordUserResponse(chatId, userId)\<close> keeps the
  inclusion when \<open>userId\<close> is one of the chat's expected users. The function does not
  look at \<^verbatim>\<open>expectedUserIds\<close> before it records: a user outside the expected ones is
  recorded all the same (see the counterexample below).
\<close>

theorem tracking_inclusion_preserved:
  assumes "respondedWithinExpected file c"
  shows "respondedWithinExpected (fst (startQuestionTracking file chatId ids now sfx)) c
       \<and> respondedWithinExpected (clearQuestionTracking file chatId) c
       \<and> (userId \<in> set (expectedUserIds (getResponseState file chatId)) \<longrightarrow>
            respondedWithinExpected (fst (recordUserResponse file chatId userId)) c)"
proof -
  have s: "respondedWithinExpected (fst (startQuestionTracking file chatId ids now sfx)) c"
    using assms
    by (simp add: respondedWithinExpected_def getResponseState_start)
  have k: "respondedWithinExpected (clearQuestionTracking file chatId) c"
    using assms
    by (simp add: respondedWithinExpected_def getResponseState_clear initialTracking_def)
  have r: "userId \<in> set (expectedUserIds (getResponseState file chatId)) \<longrightarrow>
             respondedWithinExpected (fst (recordUserResponse file chatId userId)) c"
    using assms
    by (auto simp: respondedWithinExpected_def getResponseState_record)
  from s k r show ?thesis by blast
qed

theorem tracking_inclusion_preserved_witness:
  "respondedWithinExpected
     (fst (startQuestionTracking Map.empty ''chat'' [''A'', ''B''] 0 ''0_abc'')) ''chat''
   \<and> ''A'' \<in> set (expectedUserIds (getResponseState
        (fst (startQuestionTracking Map.empty ''chat'' [''A'', ''B''] 0 ''0_abc'')) ''chat''))
   \<and> respondedWithinExpected
       (fst (recordUserResponse
          (fst (startQuestionTracking Map.empty ''chat'' [''A'', ''B''] 0 ''0_abc''))
          ''chat'' ''A'')) ''chat''
   \<and> respondedUserIds (getResponseState
       (fst (recordUserResponse
          (fst (startQuestionTracking Map.empty ''chat'' [''A'', ''B''] 0 ''0_abc''))
          ''chat'' ''A'')) ''chat'') = [''A'']"
proof -
  let ?f = "fst (startQuestionTracking Map.empty ''chat'' [''A'', ''B''] 0 ''0_abc'')"
  note rs = getResponseState_start [of Map.empty "''chat''" "[''A'', ''B'']" 0 "''0_abc''"]
  have h: "respondedWithinExpected ?f ''chat''"
    by (simp add: respondedWithinExpected_def rs)
  have m: "''A'' \<in> set (expectedUserIds (getResponseState ?f ''chat''))"
    by (simp add: rs)
  have v: "respondedUserIds (getResponseState
       (fst (recordUserResponse ?f ''chat'' ''A'')) ''chat'') = [''A'']"
    by (simp add: getResponseState_record rs
          noQuestionTracked_def)
  from tracking_inclusion_preserved [OF h, of "''chat''" "[]" 0 "[]" "''A''"] m h v
  show ?thesis by blast
qed

text \<open>
  C2 as stated fails: with \<^verbatim>\<open>["A"]\<close> expected and nobody recorded, a response of
  \<^verbatim>\<open>"B"\<close>, who is not expected, is recorded, and the inclusion no longer holds.
\<close>

theorem tracking_inclusion_counterexample:
  "respondedWithinExpected
     (fst (startQuestionTracking Map.empty ''chat'' [''A''] 0 ''0_abc'')) ''chat''
   \<and> ''B'' \<notin> set (expectedUserIds (getResponseState
        (fst (startQuestionTracking Map.empty ''chat'' [''A''] 0 ''0_abc'')) ''chat''))
   \<and> respondedUserIds (getResponseState
       (fst (recordUserResponse
          (fst (startQuestionTracking Map.empty ''chat'' [''A''] 0 ''0_abc''))
          ''chat'' ''B'')) ''chat'') = [''B'']
   \<and> \<not> respondedWithinExpected
       (fst (recordUserResponse
          (fst (startQuestionTracking Map.empty ''chat'' [''A''] 0 ''0_abc''))
          ''chat'' ''B'')) ''chat''"
  by (simp add: respondedWithinExpected_def getResponseState_record getResponseState_start
        noQuestionTracked_def)

lemma distinct_psubset_length:
  assumes "distinct xs" and "distinct ys" and "set ys \<subseteq> set xs"
  shows "(length ys < length xs) = (set ys \<subset> set xs)"
proof
  assume "length ys < length xs"
  then have "card (set ys) < card (set xs)"
    using assms by (simp add: distinct_card)
  then have "set ys \<noteq> set xs" by auto
  with assms(3) show "set ys \<subset> set xs" by blast
next
  assume "set ys \<subset> set xs"
  then have "card (set ys) < card (set xs)"
    by (simp add: psubset_card_mono)
  then show "length ys < length xs"
    using assms by (simp add: distinct_card)
qed

text \<open>
  C3, as the code has it. \<^verbatim>\<open>isWaitingForResponses\<close> compares counts: it is true
  exactly when a question is active and fewer user ids are recorded than expected.
  When the recorded ids are among the expected ones and neither list repeats an id,
  that is the proper-subset condition of the claim. With no expected user it is false,
  whatever is recorded.
\<close>

theorem isWaiting_characterisation:
  "(isWaitingForResponses file chatId \<longleftrightarrow>
      currentQuestionId (getResponseState file chatId) \<noteq> None
      \<and> length (respondedUserIds (getResponseState file chatId))
          < length (expectedUserIds (getResponseState file chatId)))
   \<and> (distinct (expectedUserIds (getResponseState file chatId))
      \<and> distinct (respondedUserIds (getResponseState file chatId))
      \<and> respondedWithinExpected file chatId \<longrightarrow>
        (isWaitingForResponses file chatId \<longleftrightarrow>
           currentQuestionId (getResponseState file chatId) \<noteq> None
           \<and> set (respondedUserIds (getResponseState file chatId))
               \<subset> set (expectedUserIds (getResponseState file chatId))))
   \<and> (expectedUserIds (getResponseState file chatId) = [] \<longrightarrow>
        \<not> isWaitingForResponses file chatId)"
proof -
  let ?rs = "getResponseState file chatId"
  have a: "isWaitingForResponses file chatId \<longleftrightarrow>
      currentQuestionId ?rs \<noteq> None
      \<and> length (respondedUserIds ?rs) < length (expectedUserIds ?rs)"
    by (auto simp: isWaitingForResponses_def Let_def)
  have b: "distinct (expectedUserIds ?rs) \<and> distinct (respondedUserIds ?rs)
      \<and> respondedWithinExpected file chatId \<longrightarrow>
        (isWaitingForResponses file chatId \<longleftrightarrow>
           currentQuestionId ?rs \<noteq> None
           \<and> set (respondedUserIds ?rs) \<subset> set (expectedUserIds ?rs))"
    using distinct_psubset_length [of "expectedUserIds ?rs" "respondedUserIds ?rs"] a
    by (simp add: respondedWithinExpected_def)
  have c: "expectedUserIds ?rs = [] \<longrightarrow> \<not> isWaitingForResponses file chatId"
    by (simp add: isWaitingForResponses_def Let_def)
  from a b c show ?thesis by blast
qed

theorem isWaiting_characterisation_witness:
  "distinct (expectedUserIds (getResponseState
      (fst (startQuestionTracking Map.empty ''chat'' [''A'', ''B''] 0 ''0_abc'')) ''chat''))
   \<and> distinct (respondedUserIds (getResponseState
      (fst (startQuestionTracking Map.empty ''chat'' [''A'', ''B''] 0 ''0_abc'')) ''chat''))
   \<and> respondedWithinExpected
      (fst (startQuestionTracking Map.empty ''chat'' [''A'', ''B''] 0 ''0_abc'')) ''chat''
   \<and> isWaitingForResponses
      (fst (startQuestionTracking Map.empty ''chat'' [''A'', ''B''] 0 ''0_abc'')) ''chat''
   \<and> expectedUserIds (getResponseState Map.empty ''chat'') = []
   \<and> \<not> isWaitingForResponses Map.empty ''chat''"
proof -
  let ?f = "fst (startQuestionTracking Map.empty ''chat'' [''A'', ''B''] 0 ''0_abc'')"
  note rs = getResponseState_start [of Map.empty "''chat''" "[''A'', ''B'']" 0 "''0_abc''"]
  have d1: "distinct (expectedUserIds (getResponseState ?f ''chat''))"
    by (simp add: rs)
  have d2: "distinct (respondedUserIds (getResponseState ?f ''chat''))"
    by (simp add: rs)
  have inc: "respondedWithinExpected ?f ''chat''"
    by (simp add: respondedWithinExpected_def rs)
  have act: "currentQuestionId (getResponseState ?f ''chat'') \<noteq> None
      \<and> set (respondedUserIds (getResponseState ?f ''chat''))
          \<subset> set (expectedUserIds (getResponseState ?f ''chat''))"
    by (auto simp: rs)
  have e: "expectedUserIds (getResponseState Map.empty ''chat'') = []"
    by (simp add: getResponseState_def getInterviewState_def initialTracking_def)
  from isWaiting_characterisation [of ?f "''chat''"] d1 d2 inc act
  have w: "isWaitingForResponses ?f ''chat''" by blast
  from isWaiting_characterisation [of Map.empty "''chat''"] e
  have n: "\<not> isWaitingForResponses Map.empty ''chat''" by blast
  from d1 d2 inc w e n show ?thesis by blast
qed

text \<open>
  C3 as stated fails: with \<^verbatim>\<open>["A", "B"]\<close> expected, after \<^verbatim>\<open>"C"\<close> alone has
  responded the function returns true, although the recorded ids are not a subset of
  the expected ones, let alone a proper one.
\<close>

theorem isWaiting_counterexample:
  "isWaitingForResponses
     (fst (recordUserResponse
        (fst (startQuestionTracking Map.empty ''chat'' [''A'', ''B''] 0 ''0_abc''))
        ''chat'' ''C'')) ''chat''
   \<and> respondedUserIds (getResponseState
       (fst (recordUserResponse
          (fst (startQuestionTracking Map.empty ''chat'' [''A'', ''B''] 0 ''0_abc''))
          ''chat'' ''C'')) ''chat'') = [''C'']
   \<and> expectedUserIds (getResponseState
       (fst (recordUserResponse
          (fst (startQuestionTracking Map.empty ''chat'' [''A'', ''B''] 0 ''0_abc''))
          ''chat'' ''C'')) ''chat'') = [''A'', ''B'']
   \<and> \<not> (set [''C''] \<subset> set [''A'', ''B''])"
  by (auto simp: isWaitingForResponses_def getResponseState_record getResponseState_start
        Let_def noQuestionTracked_def)

text \<open>
  C10. When no question is tracked for the chat (\<^verbatim>\<open>currentQuestionId\<close> is null),
  \<^verbatim>\<open>recordUserResponse(chatId, userId)\<close> returns \<^verbatim>\<open>allResponded: false\<close> together
  with the state it read, and the stored file is exactly what it was: no user is added
  and nothing is written, for every user id.
\<close>

theorem record_without_question:
  assumes "currentQuestionId (getResponseState file chatId) = None"
  shows "recordUserResponse file chatId userId
           = (file, \<lparr>allResponded = False,
                     responseState = getResponseState file chatId\<rparr>)
       \<and> \<not> allResponded (snd (recordUserResponse file chatId userId))
       \<and> fst (recordUserResponse file chatId userId) = file
       \<and> (\<forall>u. fst (recordUserResponse file chatId u) = file)"
  using assms by (simp add: recordUserResponse_def noQuestionTracked_def Let_def)

theorem record_without_question_witness:
  "currentQuestionId (getResponseState
      (clearQuestionTracking
         (fst (startQuestionTracking Map.empty ''chat'' [''A'', ''B''] 0 ''0_abc''))
         ''chat'') ''chat'') = None
   \<and> \<not> allResponded (snd (recordUserResponse
        (clearQuestionTracking
           (fst (startQuestionTracking Map.empty ''chat'' [''A'', ''B''] 0 ''0_abc''))
           ''chat'') ''chat'' ''A''))
   \<and> fst (recordUserResponse
        (clearQuestionTracking
           (fst (startQuestionTracking Map.empty ''chat'' [''A'', ''B''] 0 ''0_abc''))
           ''chat'') ''chat'' ''A'')
      = clearQuestionTracking
           (fst (startQuestionTracking Map.empty ''chat'' [''A'', ''B''] 0 ''0_abc''))
           ''chat''"
proof -
  let ?f = "clearQuestionTracking
         (fst (startQuestionTracking Map.empty ''chat'' [''A'', ''B''] 0 ''0_abc''))
         ''chat''"
  have h: "currentQuestionId (getResponseState ?f ''chat'') = None"
    by (simp add: getResponseState_clear initialTracking_def)
  from record_without_question [OF h, of "''A''"] h show ?thesis by blast
qed

section \<open>Properties of the delivery client\<close>

lemma retryLoop_third:
  "retryLoop post 3 prev =
     (case post 3 of
        Responded d \<Rightarrow> ([Post 3], Inr d)
      | Rejected e \<Rightarrow> ([Post 3], Inl e))"
  by (subst retryLoop.simps) (simp add: maxRetries_def split: outcome.splits)

lemma retryLoop_second:
  "retryLoop post 2 prev =
     (case post 2 of
        Responded d \<Rightarrow> ([Post 2], Inr d)
      | Rejected e \<Rightarrow>
          if isRetryable e
          then (Post 2 # Wait 2000 # fst (retryLoop post 3 (Some e)),
                snd (retryLoop post 3 (Some e)))
          else ([Post 2], Inl e))"
  by (subst retryLoop.simps)
     (simp add: maxRetries_def retryDelay_def split_beta split: outcome.splits)

lemma retryLoop_first:
  "retryLoop post (Suc 0) prev =
     (case post (Suc 0) of
        Responded d \<Rightarrow> ([Post (Suc 0)], Inr d)
      | Rejected e \<Rightarrow>
          if isRetryable e
          then (Post (Suc 0) # Wait 1000 # fst (retryLoop post 2 (Some e)),
                snd (retryLoop post 2 (Some e)))
          else ([Post (Suc 0)], Inl e))"
  by (subst retryLoop.simps)
     (simp add: maxRetries_def retryDelay_def split_beta numeral_2_eq_2
        split: outcome.splits)

lemma attemptSchedule_1: "attemptSchedule (Suc 0) = [Post (Suc 0)]"
  by (simp add: attemptSchedule_def)

lemma upt_1_2: "[Suc 0..<2] = [Suc 0]"
  by code_simp

lemma upt_1_3: "[Suc 0..<3] = [Suc 0, 2]"
  by code_simp

lemma attemptSchedule_2: "attemptSchedule 2 = [Post (Suc 0), Wait 1000, Post 2]"
  by (simp add: attemptSchedule_def retryDelay_def upt_1_2)

lemma attemptSchedule_3:
  "attemptSchedule 3 = [Post (Suc 0), Wait 1000, Post 2, Wait 2000, Post 3]"
  by (simp add: attemptSchedule_def retryDelay_def upt_1_3)

lemma retryLoop_runOf: "\<exists>n. runOf post (retryLoop post 1 None) n"
proof (cases "post 1")
  case (Responded d)
  then have "runOf post (retryLoop post 1 None) 1"
    by (simp add: runOf_def retryLoop_first attemptSchedule_1 maxRetries_def)
  then show ?thesis ..
next
  case r1: (Rejected e1)
  show ?thesis
  proof (cases "isRetryable e1")
    case False
    with r1 have "runOf post (retryLoop post 1 None) 1"
      by (simp add: runOf_def retryLoop_first attemptSchedule_1 maxRetries_def)
    then show ?thesis ..
  next
    case t1: True
    show ?thesis
    proof (cases "post 2")
      case (Responded d)
      with r1 t1 have "runOf post (retryLoop post 1 None) 2"
        by (simp add: runOf_def retryLoop_first retryLoop_second attemptSchedule_2
              maxRetries_def upt_1_2 upt_1_3)
      then show ?thesis ..
    next
      case r2: (Rejected e2)
      show ?thesis
      proof (cases "isRetryable e2")
        case False
        with r1 t1 r2 have "runOf post (retryLoop post 1 None) 2"
          by (simp add: runOf_def retryLoop_first retryLoop_second attemptSchedule_2
                maxRetries_def upt_1_2 upt_1_3)
        then show ?thesis ..
      next
        case t2: True
        with r1 t1 r2 have "runOf post (retryLoop post 1 None) 3"
          by (cases "post 3")
             (simp_all add: runOf_def retryLoop_first retryLoop_second retryLoop_third
                attemptSchedule_3 maxRetries_def upt_1_2 upt_1_3)
        then show ?thesis ..
      qed
    qed
  qed
qed

lemma client_error_not_retryable:
  "response_status e = Some s \<Longrightarrow> 400 \<le> s \<Longrightarrow> s < 500 \<Longrightarrow> s \<noteq> 429 \<Longrightarrow>
   code e \<noteq> Some ''ECONNRESET'' \<Longrightarrow> code e \<noteq> Some ''ETIMEDOUT'' \<Longrightarrow>
   code e \<noteq> Some ''ENOTFOUND'' \<Longrightarrow> \<not> isRetryable e"
  by (simp add: isRetryable_def)

lemma retryable_classified:
  "isRetryable e \<Longrightarrow>
   (\<exists>s. response_status e = Some s \<and> (s \<ge> 500 \<or> s = 429))
   \<or> code e = Some ''ECONNRESET'' \<or> code e = Some ''ETIMEDOUT''
   \<or> code e = Some ''ENOTFOUND''"
  by (auto simp: isRetryable_def split: option.splits)

lemma sendMessage_loop:
  "validateApiKey cfg = None \<Longrightarrow>
   sendMessage cfg post chatId content rich
     = retryLoop (post (textPayload cfg chatId content rich)) 1 None"
  by (simp add: sendMessage_def)

text \<open>
  C5. With a configured client, \<^verbatim>\<open>sendMessage\<close> makes between 1 and 3 attempts on
  the schedule attempt 1, wait 1000 ms, attempt 2, wait 2000 ms, attempt 3 (the delay
  before a retry is \<open>retryDelay\<close> times the number of the attempt that failed); an
  attempt is followed by another only when it was rejected with a retryable error, and
  retryable means status 500 or above, status 429, or code ECONNRESET, ETIMEDOUT or
  ENOTFOUND; the call's result is the last attempt's outcome. So an error that is not
  retryable, such as a 4xx other than 429, is thrown to the caller at its first
  occurrence, with no further attempt. When attempts 1 and 2 are rejected with status
  500 and attempt 3 is answered, the call returns the answer after two delays. A client
  whose key or agent id is a placeholder throws before any attempt.
\<close>

theorem sendMessage_retry_policy:
  "(validateApiKey cfg = None \<longrightarrow>
      (\<exists>n. runOf (post (textPayload cfg chatId content rich))
             (sendMessage cfg post chatId content rich) n))
   \<and> (validateApiKey cfg = Some ce \<longrightarrow>
        sendMessage cfg post chatId content rich = ([], Inl ce))
   \<and> maxRetries = 3
   \<and> length (filter isPost (fst (sendMessage cfg post chatId content rich))) \<le> 3
   \<and> (isRetryable e \<longrightarrow>
        (\<exists>s. response_status e = Some s \<and> (s \<ge> 500 \<or> s = 429))
        \<or> code e = Some ''ECONNRESET'' \<or> code e = Some ''ETIMEDOUT''
        \<or> code e = Some ''ENOTFOUND'')
   \<and> (response_status e = Some s \<and> 400 \<le> s \<and> s < 500 \<and> s \<noteq> 429
        \<and> code e \<noteq> Some ''ECONNRESET'' \<and> code e \<noteq> Some ''ETIMEDOUT''
        \<and> code e \<noteq> Some ''ENOTFOUND'' \<longrightarrow> \<not> isRetryable e)
   \<and> (validateApiKey cfg = None
        \<and> post (textPayload cfg chatId content rich) 1 = Rejected e \<and> \<not> isRetryable e \<longrightarrow>
        sendMessage cfg post chatId content rich = ([Post 1], Inl e))
   \<and> (validateApiKey cfg = None
        \<and> post (textPayload cfg chatId content rich) 1 = Rejected (httpError 500)
        \<and> post (textPayload cfg chatId content rich) 2 = Rejected (httpError 500)
        \<and> post (textPayload cfg chatId content rich) 3 = Responded d \<longrightarrow>
        sendMessage cfg post chatId content rich
          = ([Post 1, Wait 1000, Post 2, Wait 2000, Post 3], Inr d)
        \<and> length (filter isWait (fst (sendMessage cfg post chatId content rich))) = 2)"
proof -
  let ?p = "post (textPayload cfg chatId content rich)"
  let ?r = "sendMessage cfg post chatId content rich"
  have loop: "validateApiKey cfg = None \<Longrightarrow> ?r = retryLoop ?p 1 None"
    by (rule sendMessage_loop)
  have a: "validateApiKey cfg = None \<longrightarrow> (\<exists>n. runOf ?p ?r n)"
    using retryLoop_runOf [of ?p] by (simp add: loop)
  have a': "validateApiKey cfg = Some ce \<longrightarrow> ?r = ([], Inl ce)"
    by (simp add: sendMessage_def)
  have b: "maxRetries = 3"
    by (simp add: maxRetries_def)
  have c: "length (filter isPost (fst ?r)) \<le> 3"
  proof (cases "validateApiKey cfg")
    case (Some x)
    then show ?thesis by (simp add: sendMessage_def)
  next
    case None
    with a obtain n where n: "runOf ?p ?r n" by blast
    then have "n = 1 \<or> n = 2 \<or> n = 3"
      by (auto simp: runOf_def maxRetries_def)
    moreover from n have "fst ?r = attemptSchedule n"
      by (simp add: runOf_def)
    ultimately show ?thesis
      by (auto simp: attemptSchedule_1 attemptSchedule_2 attemptSchedule_3)
  qed
  have d: "isRetryable e \<longrightarrow>
            (\<exists>s. response_status e = Some s \<and> (s \<ge> 500 \<or> s = 429))
            \<or> code e = Some ''ECONNRESET'' \<or> code e = Some ''ETIMEDOUT''
            \<or> code e = Some ''ENOTFOUND''"
    using retryable_classified [of e] by blast
  have f: "response_status e = Some s \<and> 400 \<le> s \<and> s < 500 \<and> s \<noteq> 429
            \<and> code e \<noteq> Some ''ECONNRESET'' \<and> code e \<noteq> Some ''ETIMEDOUT''
            \<and> code e \<noteq> Some ''ENOTFOUND'' \<longrightarrow> \<not> isRetryable e"
    using client_error_not_retryable [of e s] by blast
  have g: "validateApiKey cfg = None \<and> ?p 1 = Rejected e \<and> \<not> isRetryable e \<longrightarrow>
             ?r = ([Post 1], Inl e)"
    by (simp add: loop retryLoop_first)
  have r500: "isRetryable (httpError 500)"
    by (simp add: isRetryable_def httpError_def)
  have h: "validateApiKey cfg = None
            \<and> ?p 1 = Rejected (httpError 500) \<and> ?p 2 = Rejected (httpError 500)
            \<and> ?p 3 = Responded d \<longrightarrow>
            ?r = ([Post 1, Wait 1000, Post 2, Wait 2000, Post 3], Inr d)
            \<and> length (filter isWait (fst ?r)) = 2"
    by (simp add: loop retryLoop_first retryLoop_second retryLoop_third r500)
  from a a' b c d f g h show ?thesis by blast
qed

theorem sendMessage_retry_policy_witness:
  "validateApiKey workingClient = None
   \<and> sendMessage workingClient
       (\<lambda>body k. if k < 3 then Rejected (httpError 500) else Responded (200::nat))
       (JStr ''chat-1'') (JStr ''hello'') (None :: unit list option)
     = ([Post 1, Wait 1000, Post 2, Wait 2000, Post 3], Inr 200)
   \<and> sendMessage workingClient
       (\<lambda>body k. Rejected (httpError 404) :: nat outcome)
       (JStr ''chat-1'') (JStr ''hello'') (None :: unit list option)
     = ([Post 1], Inl (httpError 404))"
proof -
  have v: "validateApiKey workingClient = None"
    by (simp add: validateApiKey_def isPlaceholder_def startsWith_def workingClient_def)
  have n: "\<not> isRetryable (httpError 404)"
    by (simp add: isRetryable_def httpError_def)
  have p1: "(if (1::nat) < 3 then Rejected (httpError 500) else Responded (200::nat))
      = Rejected (httpError 500)" by simp
  have p2: "(if (2::nat) < 3 then Rejected (httpError 500) else Responded (200::nat))
      = Rejected (httpError 500)" by simp
  have p3: "(if (3::nat) < 3 then Rejected (httpError 500) else Responded (200::nat))
      = Responded 200" by simp
  from sendMessage_retry_policy [of workingClient
         "\<lambda>body k. if k < 3 then Rejected (httpError 500) else Responded (200::nat)"
         "JStr ''chat-1''" "JStr ''hello''" "None :: unit list option"
         "plainError []" "httpError 404" 404 200]
    v p1 p2 p3
  have s1: "sendMessage workingClient
       (\<lambda>body k. if k < 3 then Rejected (httpError 500) else Responded (200::nat))
       (JStr ''chat-1'') (JStr ''hello'') (None :: unit list option)
     = ([Post 1, Wait 1000, Post 2, Wait 2000, Post 3], Inr 200)"
    by blast
  from sendMessage_retry_policy [of workingClient
         "\<lambda>body k. Rejected (httpError 404) :: nat outcome"
         "JStr ''chat-1''" "JStr ''hello''" "None :: unit list option"
         "plainError []" "httpError 404" 404 200] v n
  have s2: "sendMessage workingClient (\<lambda>body k. Rejected (httpError 404) :: nat outcome)
       (JStr ''chat-1'') (JStr ''hello'') (None :: unit list option)
     = ([Post 1], Inl (httpError 404))"
    by blast
  from v s1 s2 show ?thesis by blast
qed

text \<open>
  C6 fails on the code: \<^verbatim>\<open>sendMediaMessage\<close> has no retry loop. On a network that
  rejects the first call with status 500 and answers the second, the media send makes
  one call and throws the 500 error, while \<^verbatim>\<open>sendMessage\<close> on the same network waits
  1000 ms, calls again and returns the answer.
\<close>

theorem media_send_does_not_retry:
  "sendMediaMessage workingClient failsOnce (JStr ''chat-1'') (JStr ''look'')
       ''https://example.com/a.png''
       \<lparr>opt_contentType = None, opt_width = None, opt_height = None\<rparr>
     = ([Post 1], Inl (httpError 500))
   \<and> sendMessage workingClient failsOnce (JStr ''chat-1'') (JStr ''look'') None
     = ([Post 1, Wait 1000, Post 2], Inr 200)
   \<and> isRetryable (httpError 500)"
  by (simp add: sendMediaMessage_def sendMessage_def validateApiKey_def isPlaceholder_def
        startsWith_def workingClient_def failsOnce_def retryLoop_first retryLoop_second
        isRetryable_def httpError_def)

section \<open>Properties of the webhook pipeline\<close>

lemma handleStart_invalid:
  "event body \<noteq> JStr ''chat.started'' \<Longrightarrow> \<not> truthy (chat_id body) \<Longrightarrow>
   handleStart env now body pm
     = (pm, [], Done (ValidationFailed ''Missing chat.id in webhook payload''))"
  by (simp add: handleStart_def extractWebhookData_def)

lemma extract_valid:
  "truthy (chat_id body) \<Longrightarrow>
   \<exists>data. extractWebhookData body = Inr data
     \<and> data_chatId data = chat_id body \<and> data_messageId data = message_id body"
  by (simp add: extractWebhookData_def)

lemma handleStart_duplicate:
  "event body \<noteq> JStr ''chat.started'' \<Longrightarrow> truthy (chat_id body) \<Longrightarrow>
   isDuplicateMessage pm (message_id body) \<Longrightarrow>
   handleStart env now body pm
     = (pm, [DedupCheck (message_id body)], Done (DuplicateSkipped (message_id body)))"
  by (simp add: handleStart_def extractWebhookData_def)

lemma handleStart_fresh:
  "event body \<noteq> JStr ''chat.started'' \<Longrightarrow> extractWebhookData body = Inr data \<Longrightarrow>
   \<not> isDuplicateMessage pm (message_id body) \<Longrightarrow>
   handleStart env now body pm
     = (markMessageProcessed now (message_id body) pm,
        [DedupCheck (message_id body), DedupMark (message_id body)], Pending data)"
  by (auto simp: handleStart_def extractWebhookData_def split: if_splits)

lemma handle_fresh:
  "event body \<noteq> JStr ''chat.started'' \<Longrightarrow> extractWebhookData body = Inr data \<Longrightarrow>
   \<not> isDuplicateMessage pm (message_id body) \<Longrightarrow>
   handle env now body pm
     = (markMessageProcessed now (message_id body) pm,
        DedupCheck (message_id body) # DedupMark (message_id body)
          # fst (handleRest env body data),
        snd (handleRest env body data))"
  by (simp add: handle_def handleStart_fresh split_beta)

lemma fetch_no_domain:
  "\<not> list_ex isDomainEffect (fst (fetchConversationHistory env data))"
  by (simp add: fetchConversationHistory_def fetchAndProcessHistory_def
      split: sum.splits)

lemma fetch_no_dedup:
  "\<not> list_ex isDedupEffect (fst (fetchConversationHistory env data))"
  by (simp add: fetchConversationHistory_def fetchAndProcessHistory_def
      split: sum.splits)

lemma helperSend_no_dedup:
  "\<not> list_ex isDedupEffect (fst (helperSendResponse env chatId msg blocks))"
  by (simp add: helperSendResponse_def split: sum.splits bool.splits)

lemma sendResponse_no_dedup:
  "\<not> list_ex isDedupEffect (fst (sendResponse env chatId result))"
  using helperSend_no_dedup [of env chatId]
  by (simp add: sendResponse_def split: sum.splits bool.splits)

lemma processAndRespond_no_dedup:
  "\<not> list_ex isDedupEffect (fst (processAndRespond env data))"
  using fetch_no_dedup [of env data] sendResponse_no_dedup [of env "data_chatId data"]
  by (auto simp: processAndRespond_def split_beta list_ex_iff
      split: sum.splits prod.splits)

lemma handleError_no_dedup:
  "\<not> list_ex isDedupEffect (fst (handleError env body error))"
  by (simp add: handleError_def Let_def split: sum.splits bool.splits)

lemma handleRest_no_dedup:
  "\<not> list_ex isDedupEffect (fst (handleRest env body data))"
  using processAndRespond_no_dedup [of env data] handleError_no_dedup [of env body]
  by (auto simp: handleRest_def split_beta list_ex_iff split: sum.splits prod.splits)

lemma processAndRespond_hook:
  "DomainHook \<in> set (fst (processAndRespond env data))"
  by (simp add: processAndRespond_def split_beta split: sum.splits prod.splits)

lemma handleRest_hook:
  "DomainHook \<in> set (fst (handleRest env body data))"
  using processAndRespond_hook [of env data]
  by (auto simp: handleRest_def split_beta split: sum.splits prod.splits)

lemma handleRest_thrown:
  "processAndRespond env data = (effects, Inl error) \<Longrightarrow>
   handleRest env body data
     = (effects @ fst (handleError env body error), Failed (message error))"
  by (simp add: handleRest_def handleError_def Let_def)

lemma handleError_notification:
  "fst (handleError env body error)
     = (if truthy (chat_id body) \<and> isTestChat (chat_id body) = Inr False
        then [Deliver (chat_id body) (JStr getErrorMessage)] else [])"
  by (auto simp: handleError_def Let_def split: sum.splits bool.splits)

lemma handleError_swallows:
  "handleError (env\<lparr>clientSendMessage := send\<rparr>) body error = handleError env body error"
  by (simp add: handleError_def Let_def split: sum.splits bool.splits)

lemma http_status_range: "http_status r \<in> {200, 400, 500}"
  by (cases r) simp_all

text \<open>
  C7. For a request body that is not a \<^verbatim>\<open>chat.started\<close> event and whose \<^verbatim>\<open>chat.id\<close>
  is missing (or otherwise falsy), \<^verbatim>\<open>handle\<close> answers with status 400,
  \<^verbatim>\<open>success: false\<close> and the validation error, and does nothing else: the store is
  what it was, and no call is made, neither to the deduplication helpers nor to the
  history fetch, the processing hook or the delivery client.
\<close>

theorem validation_short_circuit:
  assumes "event body \<noteq> JStr ''chat.started''" and "\<not> truthy (chat_id body)"
  shows "handle env now body pm
           = (pm, [], ValidationFailed ''Missing chat.id in webhook payload'')
       \<and> http_status (snd (snd (handle env now body pm))) = 400
       \<and> \<not> success (snd (snd (handle env now body pm)))
       \<and> error_of (snd (snd (handle env now body pm)))
           = Some ''Missing chat.id in webhook payload''
       \<and> fst (handle env now body pm) = pm
       \<and> fst (snd (handle env now body pm)) = []"
  using assms by (simp add: handle_def handleStart_invalid)

theorem validation_short_circuit_witness:
  "event (messageEvent JUndefined (JStr ''m1'')) \<noteq> JStr ''chat.started''
   \<and> \<not> truthy (chat_id (messageEvent JUndefined (JStr ''m1'')))
   \<and> handle replyingAgent 0 (messageEvent JUndefined (JStr ''m1'')) Map.empty
       = (Map.empty, [], ValidationFailed ''Missing chat.id in webhook payload'')
   \<and> http_status (snd (snd
        (handle replyingAgent 0 (messageEvent JUndefined (JStr ''m1'')) Map.empty))) = 400"
proof -
  have e: "event (messageEvent JUndefined (JStr ''m1'')) \<noteq> JStr ''chat.started''"
    by (simp add: messageEvent_def)
  have c: "\<not> truthy (chat_id (messageEvent JUndefined (JStr ''m1'')))"
    by (simp add: messageEvent_def)
  from validation_short_circuit [OF e c, of replyingAgent 0 Map.empty] e c
  show ?thesis by blast
qed

text \<open>
  C8, as the code has it. An error thrown after the marking, by \<^verbatim>\<open>processRequest\<close>
  or while sending the response, is caught by \<^verbatim>\<open>handle\<close>: the response is status 500
  with \<^verbatim>\<open>success: false\<close> and the error's message. Before responding, the handler
  sends the user the error text with one call of \<^verbatim>\<open>client.sendMessage\<close> when the chat
  is not a test chat, and makes no call at all when the chat id starts with
  \<^verbatim>\<open>test-\<close> (or \<^verbatim>\<open>isTestChat\<close> itself fails): at most one notification in every
  case. Whether that call succeeds or fails changes nothing.
\<close>

theorem error_boundary:
  assumes "event body \<noteq> JStr ''chat.started''"
    and "extractWebhookData body = Inr data"
    and "\<not> isDuplicateMessage pm (message_id body)"
    and "processAndRespond env data = (effects, Inl error)"
  shows "snd (snd (handle env now body pm)) = Failed (message error)
       \<and> http_status (snd (snd (handle env now body pm))) = 500
       \<and> \<not> success (snd (snd (handle env now body pm)))
       \<and> fst (snd (handle env now body pm))
           = DedupCheck (message_id body) # DedupMark (message_id body)
               # effects @ fst (handleError env body error)
       \<and> fst (handleError env body error)
           = (if isTestChat (chat_id body) = Inr False
              then [Deliver (chat_id body) (JStr getErrorMessage)] else [])
       \<and> length (filter isDeliver (fst (handleError env body error))) \<le> 1
       \<and> handleError (env\<lparr>clientSendMessage := send\<rparr>) body error
           = handleError env body error"
proof -
  have valid: "truthy (chat_id body)"
    using assms(2) by (auto simp: extractWebhookData_def split: if_splits)
  note h = handle_fresh [OF assms(1) assms(2) assms(3), of env now]
  note r = handleRest_thrown [OF assms(4), of body]
  have a: "snd (snd (handle env now body pm)) = Failed (message error)"
    by (simp add: h r)
  have b: "fst (snd (handle env now body pm))
           = DedupCheck (message_id body) # DedupMark (message_id body)
               # effects @ fst (handleError env body error)"
    by (simp add: h r)
  have c: "fst (handleError env body error)
           = (if isTestChat (chat_id body) = Inr False
              then [Deliver (chat_id body) (JStr getErrorMessage)] else [])"
    using valid by (simp add: handleError_notification)
  have d: "length (filter isDeliver (fst (handleError env body error))) \<le> 1"
    by (simp add: c)
  have e: "handleError (env\<lparr>clientSendMessage := send\<rparr>) body error
           = handleError env body error"
    by (rule handleError_swallows)
  from a b c d e show ?thesis by simp
qed

lemma failing_run:
  "processAndRespond failingAgent
     \<lparr>data_chatId = JStr ''chat-1'', data_agentId = JStr ''agent-1'',
      data_messageId = JStr ''m1'', data_userMessage = JStr ''hi'',
      data_imageUrl = JNull\<rparr>
   = ([HistoryFetch (JStr ''chat-1''), DomainHook], Inl (plainError ''boom''))"
  by (simp add: processAndRespond_def fetchConversationHistory_def
        fetchAndProcessHistory_def failingAgent_def replyingAgent_def)

theorem error_boundary_witness:
  "event (messageEvent (JStr ''chat-1'') (JStr ''m1'')) \<noteq> JStr ''chat.started''
   \<and> \<not> isDuplicateMessage Map.empty (message_id (messageEvent (JStr ''chat-1'') (JStr ''m1'')))
   \<and> handle failingAgent 0 (messageEvent (JStr ''chat-1'') (JStr ''m1'')) Map.empty
       = (markMessageProcessed 0 (JStr ''m1'') Map.empty,
          [DedupCheck (JStr ''m1''), DedupMark (JStr ''m1''),
           HistoryFetch (JStr ''chat-1''), DomainHook,
           Deliver (JStr ''chat-1'') (JStr getErrorMessage)],
          Failed ''boom'')"
proof -
  let ?body = "messageEvent (JStr ''chat-1'') (JStr ''m1'')"
  let ?data = "\<lparr>data_chatId = JStr ''chat-1'', data_agentId = JStr ''agent-1'',
      data_messageId = JStr ''m1'', data_userMessage = JStr ''hi'',
      data_imageUrl = JNull\<rparr>"
  have e: "event ?body \<noteq> JStr ''chat.started''"
    by (simp add: messageEvent_def)
  have x: "extractWebhookData ?body = Inr ?data"
    by (simp add: extractWebhookData_def messageEvent_def orElse_def)
  have n: "\<not> isDuplicateMessage Map.empty (message_id ?body)"
    by (simp add: isDuplicateMessage_def)
  have t: "isTestChat (chat_id ?body) = Inr False"
    by (simp add: messageEvent_def startsWith_def)
  have m: "message_id ?body = JStr ''m1''" and c: "chat_id ?body = JStr ''chat-1''"
    by (simp_all add: messageEvent_def)
  from error_boundary [OF e x n failing_run, of 0 "clientSendMessage failingAgent"]
  have "snd (snd (handle failingAgent 0 ?body Map.empty)) = Failed (message (plainError ''boom''))"
    and "fst (snd (handle failingAgent 0 ?body Map.empty))
           = DedupCheck (message_id ?body) # DedupMark (message_id ?body)
               # [HistoryFetch (JStr ''chat-1''), DomainHook]
               @ fst (handleError failingAgent ?body (plainError ''boom''))"
    and "fst (handleError failingAgent ?body (plainError ''boom''))
           = (if isTestChat (chat_id ?body) = Inr False
              then [Deliver (chat_id ?body) (JStr getErrorMessage)] else [])"
    by blast+
  then have tr: "fst (snd (handle failingAgent 0 ?body Map.empty))
       = [DedupCheck (JStr ''m1''), DedupMark (JStr ''m1''),
           HistoryFetch (JStr ''chat-1''), DomainHook,
           Deliver (JStr ''chat-1'') (JStr getErrorMessage)]"
    and rs: "snd (snd (handle failingAgent 0 ?body Map.empty)) = Failed ''boom''"
    using t m c by (simp_all add: plainError_def)
  have st: "fst (handle failingAgent 0 ?body Map.empty)
      = markMessageProcessed 0 (JStr ''m1'') Map.empty"
    using handle_fresh [OF e x n, of failingAgent 0] m by simp
  from tr rs st have "handle failingAgent 0 ?body Map.empty
       = (markMessageProcessed 0 (JStr ''m1'') Map.empty,
          [DedupCheck (JStr ''m1''), DedupMark (JStr ''m1''),
           HistoryFetch (JStr ''chat-1''), DomainHook,
           Deliver (JStr ''chat-1'') (JStr getErrorMessage)],
          Failed ''boom'')"
    by (metis prod.collapse)
  with e n show ?thesis by blast
qed

text \<open>
  C8 as stated fails for a test chat: the hook throws for a message of chat
  \<^verbatim>\<open>test-chat-1\<close>, the response is the 500 failure, and no notification was
  attempted: the delivery client was never called.
\<close>

theorem error_boundary_counterexample:
  "handle failingAgent 0 (messageEvent (JStr ''test-chat-1'') (JStr ''m1'')) Map.empty
     = (markMessageProcessed 0 (JStr ''m1'') Map.empty,
        [DedupCheck (JStr ''m1''), DedupMark (JStr ''m1''),
         HistoryFetch (JStr ''test-chat-1''), DomainHook],
        Failed ''boom'')
   \<and> filter isDeliver
        (fst (snd (handle failingAgent 0
           (messageEvent (JStr ''test-chat-1'') (JStr ''m1'')) Map.empty))) = []"
  by (simp add: handle_def handleStart_def handleRest_def handleError_def
        processAndRespond_def fetchConversationHistory_def fetchAndProcessHistory_def
        extractWebhookData_def messageEvent_def orElse_def isDuplicateMessage_def
        failingAgent_def replyingAgent_def plainError_def startsWith_def
        getHistoryLimit_def shouldIncludeImagesInHistory_def)

lemma sendResponse_delivers:
  "isTestChat chatId = Inr False \<Longrightarrow> \<not> truthy (result_sent result) \<Longrightarrow>
   \<not> truthy (result_imageUrl result) \<Longrightarrow> truthy (result_response result) \<Longrightarrow>
   fst (sendResponse env chatId result) = [Deliver chatId (result_response result)]"
  by (simp add: sendResponse_def helperSendResponse_def split: sum.splits)

lemma processAndRespond_delivers:
  assumes "processRequest env data (snd (fetchConversationHistory env data)) = Inr result"
    and "isTestChat (data_chatId data) = Inr False"
    and "\<not> truthy (result_sent result)" and "\<not> truthy (result_imageUrl result)"
    and "truthy (result_response result)"
  shows "Deliver (data_chatId data) (result_response result)
           \<in> set (fst (processAndRespond env data))"
  using assms sendResponse_delivers [OF assms(2-5), of env]
  by (simp add: processAndRespond_def split_beta split: sum.splits prod.splits)

lemma handleRest_delivers:
  assumes "processRequest env data (snd (fetchConversationHistory env data)) = Inr result"
    and "isTestChat (data_chatId data) = Inr False"
    and "\<not> truthy (result_sent result)" and "\<not> truthy (result_imageUrl result)"
    and "truthy (result_response result)"
  shows "Deliver (data_chatId data) (result_response result)
           \<in> set (fst (handleRest env body data))"
  using processAndRespond_delivers [OF assms]
  by (auto simp: handleRest_def split_beta split: sum.splits prod.splits)

text \<open>
  C9. For a message id that is missing, null or empty (any falsy value),
  \<^verbatim>\<open>isDuplicateMessage\<close> is false and \<^verbatim>\<open>markMessageProcessed\<close> leaves the store as
  it is. An event with such an id that passes validation is therefore never answered
  as a duplicate: \<^verbatim>\<open>handle\<close> runs the rest of the pipeline, the processing hook is
  invoked, a reply the hook returns for a chat that is not a test chat is handed to
  the delivery client, and the store is unchanged, so a redelivery at any later time
  against the resulting store does exactly the same.
\<close>

theorem falsy_id_bypasses_dedup:
  assumes "\<not> truthy messageId"
  shows "\<not> isDuplicateMessage pm messageId
       \<and> markMessageProcessed now messageId pm = pm
       \<and> (event body \<noteq> JStr ''chat.started'' \<and> extractWebhookData body = Inr data
            \<and> message_id body = messageId \<longrightarrow>
            handle env now body pm
              = (pm, DedupCheck messageId # DedupMark messageId
                       # fst (handleRest env body data),
                 snd (handleRest env body data))
            \<and> \<not> skipped (snd (snd (handle env now body pm)))
            \<and> DomainHook \<in> set (fst (snd (handle env now body pm)))
            \<and> handle env later body (fst (handle env now body pm))
                = handle env now body pm
            \<and> (processRequest env data (snd (fetchConversationHistory env data)) = Inr result
                 \<and> isTestChat (data_chatId data) = Inr False
                 \<and> \<not> truthy (result_sent result) \<and> \<not> truthy (result_imageUrl result)
                 \<and> truthy (result_response result) \<longrightarrow>
                 Deliver (data_chatId data) (result_response result)
                   \<in> set (fst (snd (handle env now body pm)))))"
proof -
  have nd: "\<And>store. \<not> isDuplicateMessage store messageId"
    using assms by (simp add: isDuplicateMessage_def)
  have mk: "\<And>t store. markMessageProcessed t messageId store = store"
    using assms by (simp add: markMessageProcessed_def)
  {
    assume e: "event body \<noteq> JStr ''chat.started''"
      and x: "extractWebhookData body = Inr data"
      and m: "message_id body = messageId"
    have h: "\<And>t store. handle env t body store
              = (store, DedupCheck messageId # DedupMark messageId
                       # fst (handleRest env body data),
                 snd (handleRest env body data))"
      using handle_fresh [OF e x, of _ env] nd mk m by simp
    have ns: "\<not> skipped (snd (handleRest env body data))"
      by (auto simp: handleRest_def handleError_def processAndRespond_def Let_def split_beta
          split: sum.splits prod.splits)
    have hook: "DomainHook \<in> set (fst (handleRest env body data))"
      by (rule handleRest_hook)
    have del: "processRequest env data (snd (fetchConversationHistory env data)) = Inr result
                 \<and> isTestChat (data_chatId data) = Inr False
                 \<and> \<not> truthy (result_sent result) \<and> \<not> truthy (result_imageUrl result)
                 \<and> truthy (result_response result) \<longrightarrow>
                 Deliver (data_chatId data) (result_response result)
                   \<in> set (fst (handleRest env body data))"
      using handleRest_delivers [of env data result body] by blast
    have "handle env now body pm
              = (pm, DedupCheck messageId # DedupMark messageId
                       # fst (handleRest env body data),
                 snd (handleRest env body data))
            \<and> \<not> skipped (snd (snd (handle env now body pm)))
            \<and> DomainHook \<in> set (fst (snd (handle env now body pm)))
            \<and> handle env later body (fst (handle env now body pm))
                = handle env now body pm
            \<and> (processRequest env data (snd (fetchConversationHistory env data)) = Inr result
                 \<and> isTestChat (data_chatId data) = Inr False
                 \<and> \<not> truthy (result_sent result) \<and> \<not> truthy (result_imageUrl result)
                 \<and> truthy (result_response result) \<longrightarrow>
                 Deliver (data_chatId data) (result_response result)
                   \<in> set (fst (snd (handle env now body pm))))"
      using ns hook del by (simp add: h)
  }
  with nd mk show ?thesis by blast
qed

lemma replying_run:
  "handleRest replyingAgent (messageEvent (JStr ''chat-1'') mid)
     \<lparr>data_chatId = JStr ''chat-1'', data_agentId = JStr ''agent-1'',
      data_messageId = mid, data_userMessage = JStr ''hi'',
      data_imageUrl = JNull\<rparr>
   = ([HistoryFetch (JStr ''chat-1''), DomainHook, Deliver (JStr ''chat-1'') (JStr ''Hello!'')],
      Handled ''mandy'' replyResult False)"
  by (simp add: handleRest_def processAndRespond_def fetchConversationHistory_def
        fetchAndProcessHistory_def replyingAgent_def replyResult_def sendResponse_def
        helperSendResponse_def startsWith_def)

theorem falsy_id_bypasses_dedup_witness:
  "\<not> truthy (JStr [])
   \<and> event (messageEvent (JStr ''chat-1'') (JStr [])) \<noteq> JStr ''chat.started''
   \<and> message_id (messageEvent (JStr ''chat-1'') (JStr [])) = JStr []
   \<and> handle replyingAgent 0 (messageEvent (JStr ''chat-1'') (JStr [])) Map.empty
       = (Map.empty,
          [DedupCheck (JStr []), DedupMark (JStr []), HistoryFetch (JStr ''chat-1''),
           DomainHook, Deliver (JStr ''chat-1'') (JStr ''Hello!'')],
          Handled ''mandy'' replyResult False)
   \<and> handle replyingAgent 500 (messageEvent (JStr ''chat-1'') (JStr []))
         (fst (handle replyingAgent 0 (messageEvent (JStr ''chat-1'') (JStr [])) Map.empty))
       = handle replyingAgent 0 (messageEvent (JStr ''chat-1'') (JStr [])) Map.empty"
proof -
  let ?body = "messageEvent (JStr ''chat-1'') (JStr [])"
  let ?data = "\<lparr>data_chatId = JStr ''chat-1'', data_agentId = JStr ''agent-1'',
      data_messageId = JStr [], data_userMessage = JStr ''hi'',
      data_imageUrl = JNull\<rparr>"
  have f: "\<not> truthy (JStr [])" by simp
  have e: "event ?body \<noteq> JStr ''chat.started''"
    by (simp add: messageEvent_def)
  have x: "extractWebhookData ?body = Inr ?data"
    by (simp add: extractWebhookData_def messageEvent_def orElse_def)
  have m: "message_id ?body = JStr []"
    by (simp add: messageEvent_def)
  from falsy_id_bypasses_dedup [OF f, of Map.empty 0 ?body ?data replyingAgent 500 replyResult]
    e x m
  have "handle replyingAgent 0 ?body Map.empty
              = (Map.empty, DedupCheck (JStr []) # DedupMark (JStr [])
                       # fst (handleRest replyingAgent ?body ?data),
                 snd (handleRest replyingAgent ?body ?data))"
    and r: "handle replyingAgent 500 ?body (fst (handle replyingAgent 0 ?body Map.empty))
                = handle replyingAgent 0 ?body Map.empty"
    by blast+
  then have "handle replyingAgent 0 ?body Map.empty
       = (Map.empty,
          [DedupCheck (JStr []), DedupMark (JStr []), HistoryFetch (JStr ''chat-1''),
           DomainHook, Deliver (JStr ''chat-1'') (JStr ''Hello!'')],
          Handled ''mandy'' replyResult False)"
    by (simp add: replying_run)
  with f e m r show ?thesis by blast
qed

section \<open>Requests in flight: at most one carrier of an id gets through\<close>

text \<open>The two ways \<open>handleStart\<close> can end.\<close>

lemma handleStart_outcomes:
  assumes "handleStart env now body pm = (store, effects, prog)"
  shows "(store = pm \<and> (\<forall>i. DedupMark i \<notin> set effects) \<and> (\<exists>r. prog = Done r)
          \<and> (event body \<noteq> JStr ''chat.started'' \<longrightarrow> \<not> list_ex isDomainEffect effects))
       \<or> (event body \<noteq> JStr ''chat.started''
          \<and> \<not> isDuplicateMessage pm (message_id body)
          \<and> store = markMessageProcessed now (message_id body) pm
          \<and> effects = [DedupCheck (message_id body), DedupMark (message_id body)]
          \<and> (\<exists>d. prog = Pending d))"
proof (cases "event body = JStr ''chat.started''")
  case True
  then show ?thesis using assms
    by (auto simp: handleStart_def handleChatStarted_def Let_def split_beta
        split: sum.splits bool.splits if_splits)
next
  case False
  then show ?thesis using assms
    by (auto simp: handleStart_def extractWebhookData_def split: if_splits)
qed

lemma handleRest_no_mark: "DedupMark i \<notin> set (fst (handleRest env body data))"
  using handleRest_no_dedup [of env body data]
  by (auto simp: list_ex_iff)

lemma invI:
  assumes "length (sys_tasks s) = length bodies"
    and "\<And>i b. i < length bodies \<Longrightarrow> sys_tasks s ! i = Queued b \<Longrightarrow> b = bodies ! i"
    and "\<And>i. i < length bodies \<Longrightarrow> carries m (bodies ! i) \<Longrightarrow>
           invoked i s \<or> isAwaiting (sys_tasks s ! i) \<Longrightarrow> marked m i s"
    and "\<And>i j. marked m i s \<Longrightarrow> marked m j s \<Longrightarrow> i = j"
    and "\<And>i. marked m i s \<Longrightarrow> \<exists>ts. sys_store s m = Some ts \<and> t0 \<le> ts"
  shows "inFlightInvariant bodies m t0 s"
  unfolding inFlightInvariant_def using assms by blast

lemma invD_length: "inFlightInvariant bodies m t0 s \<Longrightarrow> length (sys_tasks s) = length bodies"
  by (simp add: inFlightInvariant_def)

lemma invD_queued:
  "inFlightInvariant bodies m t0 s \<Longrightarrow> i < length bodies \<Longrightarrow>
   sys_tasks s ! i = Queued b \<Longrightarrow> b = bodies ! i"
  unfolding inFlightInvariant_def by blast

lemma invD_marked:
  "inFlightInvariant bodies m t0 s \<Longrightarrow> i < length bodies \<Longrightarrow> carries m (bodies ! i) \<Longrightarrow>
   invoked i s \<or> isAwaiting (sys_tasks s ! i) \<Longrightarrow> marked m i s"
  unfolding inFlightInvariant_def by blast

lemma invD_unique:
  "inFlightInvariant bodies m t0 s \<Longrightarrow> marked m i s \<Longrightarrow> marked m j s \<Longrightarrow> i = j"
  unfolding inFlightInvariant_def by blast

lemma invD_store:
  "inFlightInvariant bodies m t0 s \<Longrightarrow> marked m i s \<Longrightarrow>
   \<exists>ts. sys_store s m = Some ts \<and> t0 \<le> ts"
  unfolding inFlightInvariant_def by blast

lemma step_timer:
  assumes inv: "inFlightInvariant bodies m t0 s"
    and "now \<le> t0 + MESSAGE_EXPIRY_MS"
  shows "inFlightInvariant bodies m t0 (step envs s (Timer now))"
proof (rule invI)
  let ?s' = "step envs s (Timer now)"
  have tasks: "sys_tasks ?s' = sys_tasks s" and log: "sys_log ?s' = sys_log s"
    and store: "sys_store ?s' = sweep now (sys_store s)"
    by simp_all
  have mk: "\<And>i. marked m i ?s' = marked m i s"
    by (simp add: marked_def)
  have iv: "\<And>i. invoked i ?s' = invoked i s"
    by (simp add: invoked_def)
  show "length (sys_tasks ?s') = length bodies"
    using invD_length [OF inv] by simp
  show "\<And>i b. i < length bodies \<Longrightarrow> sys_tasks ?s' ! i = Queued b \<Longrightarrow> b = bodies ! i"
    using invD_queued [OF inv] by simp
  show "\<And>i. i < length bodies \<Longrightarrow> carries m (bodies ! i) \<Longrightarrow>
           invoked i ?s' \<or> isAwaiting (sys_tasks ?s' ! i) \<Longrightarrow> marked m i ?s'"
    using invD_marked [OF inv] by (simp only: mk iv tasks)
  show "\<And>i j. marked m i ?s' \<Longrightarrow> marked m j ?s' \<Longrightarrow> i = j"
    using invD_unique [OF inv] by (simp only: mk)
  show "\<And>i. marked m i ?s' \<Longrightarrow> \<exists>ts. sys_store ?s' m = Some ts \<and> t0 \<le> ts"
  proof -
    fix i assume "marked m i ?s'"
    then have "marked m i s" by (simp only: mk)
    from invD_store [OF inv this] obtain ts where ts: "sys_store s m = Some ts" "t0 \<le> ts"
      by blast
    then have "now - ts \<le> MESSAGE_EXPIRY_MS" using assms(2) by simp
    with ts have "sweep now (sys_store s) m = Some ts"
      by (simp add: sweep_keeps)
    with ts show "\<exists>ts. sys_store ?s' m = Some ts \<and> t0 \<le> ts"
      by (simp only: store) blast
  qed
qed

lemma marked_extend:
  "sys_log s' = sys_log s @ map (Pair k) effects \<Longrightarrow>
   marked m i s' = (marked m i s \<or> (i = k \<and> DedupMark m \<in> set effects))"
  by (auto simp: marked_def)

lemma invoked_extend:
  "sys_log s' = sys_log s @ map (Pair k) effects \<Longrightarrow>
   invoked i s' = (invoked i s \<or> (i = k \<and> list_ex isDomainEffect effects))"
  by (auto simp: invoked_def list_ex_iff)

lemma step_awaiting:
  assumes inv: "inFlightInvariant bodies m t0 s"
    and k: "k < length (sys_tasks s)"
    and aw: "sys_tasks s ! k = Awaiting body data"
  shows "inFlightInvariant bodies m t0 (step envs s (Run k now))"
proof -
  define s' where "s' = step envs s (Run k now)"
  define effects where "effects = fst (handleRest (envs k) body data)"
  define response where "response = snd (handleRest (envs k) body data)"
  have tasks: "sys_tasks s' = (sys_tasks s)[k := Finished response]"
    and log: "sys_log s' = sys_log s @ map (Pair k) effects"
    and store: "sys_store s' = sys_store s"
    using k aw by (simp_all add: s'_def effects_def response_def split_beta)
  have "DedupMark m \<notin> set effects"
    unfolding effects_def by (rule handleRest_no_mark)
  then have mk: "\<And>i. marked m i s' = marked m i s"
    using marked_extend [OF log, of m] by simp
  have len: "length (sys_tasks s) = length bodies"
    by (rule invD_length [OF inv])
  have "inFlightInvariant bodies m t0 s'"
  proof (rule invI)
    show "length (sys_tasks s') = length bodies"
      using len by (simp add: tasks)
    show "\<And>i b. i < length bodies \<Longrightarrow> sys_tasks s' ! i = Queued b \<Longrightarrow> b = bodies ! i"
    proof -
      fix i b assume i: "i < length bodies" and q: "sys_tasks s' ! i = Queued b"
      then have "i \<noteq> k" using len by (auto simp: tasks)
      with q have "sys_tasks s ! i = Queued b" by (simp add: tasks)
      with invD_queued [OF inv i] show "b = bodies ! i" by blast
    qed
    show "\<And>i. i < length bodies \<Longrightarrow> carries m (bodies ! i) \<Longrightarrow>
             invoked i s' \<or> isAwaiting (sys_tasks s' ! i) \<Longrightarrow> marked m i s'"
    proof -
      fix i assume i: "i < length bodies" and c: "carries m (bodies ! i)"
        and d: "invoked i s' \<or> isAwaiting (sys_tasks s' ! i)"
      show "marked m i s'"
      proof (cases "i = k")
        case True
        then have "isAwaiting (sys_tasks s ! i)" using aw by simp
        with invD_marked [OF inv i c] show ?thesis by (simp add: mk)
      next
        case False
        then have "invoked i s' = invoked i s"
          using invoked_extend [OF log, of i] by simp
        moreover from False have "sys_tasks s' ! i = sys_tasks s ! i"
          by (simp add: tasks)
        ultimately have "invoked i s \<or> isAwaiting (sys_tasks s ! i)" using d by simp
        with invD_marked [OF inv i c] show ?thesis by (simp add: mk)
      qed
    qed
    show "\<And>i j. marked m i s' \<Longrightarrow> marked m j s' \<Longrightarrow> i = j"
      using invD_unique [OF inv] by (simp only: mk)
    show "\<And>i. marked m i s' \<Longrightarrow> \<exists>ts. sys_store s' m = Some ts \<and> t0 \<le> ts"
      using invD_store [OF inv] by (simp only: mk store)
  qed
  then show ?thesis by (simp only: s'_def)
qed

lemma step_queued_done:
  assumes inv: "inFlightInvariant bodies m t0 s"
    and k: "k < length (sys_tasks s)"
    and q: "sys_tasks s ! k = Queued body"
    and hs: "handleStart (envs k) now body (sys_store s) = (sys_store s, effects, Done r)"
    and nomark: "\<forall>i. DedupMark i \<notin> set effects"
    and quiet: "event body \<noteq> JStr ''chat.started'' \<longrightarrow> \<not> list_ex isDomainEffect effects"
  shows "inFlightInvariant bodies m t0 (step envs s (Run k now))"
proof -
  define s' where "s' = step envs s (Run k now)"
  have tasks: "sys_tasks s' = (sys_tasks s)[k := Finished r]"
    and log: "sys_log s' = sys_log s @ map (Pair k) effects"
    and store: "sys_store s' = sys_store s"
    using k q hs by (simp_all add: s'_def)
  have mk: "\<And>i. marked m i s' = marked m i s"
    using marked_extend [OF log, of m] nomark by simp
  have len: "length (sys_tasks s) = length bodies"
    by (rule invD_length [OF inv])
  have body: "body = bodies ! k"
    using invD_queued [OF inv _ q] k len by simp
  have "inFlightInvariant bodies m t0 s'"
  proof (rule invI)
    show "length (sys_tasks s') = length bodies"
      using len by (simp add: tasks)
    show "\<And>i b. i < length bodies \<Longrightarrow> sys_tasks s' ! i = Queued b \<Longrightarrow> b = bodies ! i"
    proof -
      fix i b assume i: "i < length bodies" and qi: "sys_tasks s' ! i = Queued b"
      then have "i \<noteq> k" using len by (auto simp: tasks)
      with qi have "sys_tasks s ! i = Queued b" by (simp add: tasks)
      with invD_queued [OF inv i] show "b = bodies ! i" by blast
    qed
    show "\<And>i. i < length bodies \<Longrightarrow> carries m (bodies ! i) \<Longrightarrow>
             invoked i s' \<or> isAwaiting (sys_tasks s' ! i) \<Longrightarrow> marked m i s'"
    proof -
      fix i assume i: "i < length bodies" and c: "carries m (bodies ! i)"
        and d: "invoked i s' \<or> isAwaiting (sys_tasks s' ! i)"
      show "marked m i s'"
      proof (cases "i = k")
        case True
        with c body have "event body \<noteq> JStr ''chat.started''"
          by (simp add: carries_def)
        with quiet have "\<not> list_ex isDomainEffect effects" by blast
        then have "invoked i s' = invoked i s"
          using invoked_extend [OF log, of i] by simp
        moreover have "\<not> isAwaiting (sys_tasks s' ! i)"
          using True k by (simp add: tasks)
        ultimately have "invoked i s" using d by simp
        with invD_marked [OF inv i c] show ?thesis by (simp add: mk)
      next
        case False
        then have "invoked i s' = invoked i s"
          using invoked_extend [OF log, of i] by simp
        moreover from False have "sys_tasks s' ! i = sys_tasks s ! i"
          by (simp add: tasks)
        ultimately have "invoked i s \<or> isAwaiting (sys_tasks s ! i)" using d by simp
        with invD_marked [OF inv i c] show ?thesis by (simp add: mk)
      qed
    qed
    show "\<And>i j. marked m i s' \<Longrightarrow> marked m j s' \<Longrightarrow> i = j"
      using invD_unique [OF inv] by (simp only: mk)
    show "\<And>i. marked m i s' \<Longrightarrow> \<exists>ts. sys_store s' m = Some ts \<and> t0 \<le> ts"
      using invD_store [OF inv] by (simp only: mk store)
  qed
  then show ?thesis by (simp only: s'_def)
qed

lemma step_queued_pending:
  assumes inv: "inFlightInvariant bodies m t0 s"
    and m: "truthy m"
    and k: "k < length (sys_tasks s)"
    and q: "sys_tasks s ! k = Queued body"
    and t: "t0 \<le> now"
    and hs: "handleStart (envs k) now body (sys_store s)
               = (markMessageProcessed now (message_id body) (sys_store s),
                  [DedupCheck (message_id body), DedupMark (message_id body)], Pending d)"
    and fresh: "\<not> isDuplicateMessage (sys_store s) (message_id body)"
  shows "inFlightInvariant bodies m t0 (step envs s (Run k now))"
proof -
  define s' where "s' = step envs s (Run k now)"
  have tasks: "sys_tasks s' = (sys_tasks s)[k := Awaiting body d]"
    and log: "sys_log s' = sys_log s
                 @ map (Pair k) [DedupCheck (message_id body), DedupMark (message_id body)]"
    and store: "sys_store s' = markMessageProcessed now (message_id body) (sys_store s)"
    using k q hs by (simp_all add: s'_def)
  have mk: "\<And>i. marked m i s' = (marked m i s \<or> (i = k \<and> message_id body = m))"
    using marked_extend [OF log, of m] by auto
  have iv: "\<And>i. invoked i s' = invoked i s"
    using invoked_extend [OF log] by simp
  have len: "length (sys_tasks s) = length bodies"
    by (rule invD_length [OF inv])
  have body: "body = bodies ! k"
    using invD_queued [OF inv _ q] k len by simp
  have none: "message_id body = m \<Longrightarrow> \<not> marked m i s" for i
  proof
    assume eq: "message_id body = m" and "marked m i s"
    from invD_store [OF inv this(2)] obtain ts where "sys_store s m = Some ts" by blast
    with m have "isDuplicateMessage (sys_store s) m"
      by (simp add: isDuplicateMessage_def)
    with fresh eq show False by simp
  qed
  have "inFlightInvariant bodies m t0 s'"
  proof (rule invI)
    show "length (sys_tasks s') = length bodies"
      using len by (simp add: tasks)
    show "\<And>i b. i < length bodies \<Longrightarrow> sys_tasks s' ! i = Queued b \<Longrightarrow> b = bodies ! i"
    proof -
      fix i b assume i: "i < length bodies" and qi: "sys_tasks s' ! i = Queued b"
      then have "i \<noteq> k" using len by (auto simp: tasks)
      with qi have "sys_tasks s ! i = Queued b" by (simp add: tasks)
      with invD_queued [OF inv i] show "b = bodies ! i" by blast
    qed
    show "\<And>i. i < length bodies \<Longrightarrow> carries m (bodies ! i) \<Longrightarrow>
             invoked i s' \<or> isAwaiting (sys_tasks s' ! i) \<Longrightarrow> marked m i s'"
    proof -
      fix i assume i: "i < length bodies" and c: "carries m (bodies ! i)"
        and d: "invoked i s' \<or> isAwaiting (sys_tasks s' ! i)"
      show "marked m i s'"
      proof (cases "i = k")
        case True
        with c body have "message_id body = m" by (simp add: carries_def)
        with True show ?thesis by (simp add: mk)
      next
        case False
        then have "sys_tasks s' ! i = sys_tasks s ! i"
          by (simp add: tasks)
        then have "invoked i s \<or> isAwaiting (sys_tasks s ! i)" using d by (simp add: iv)
        with invD_marked [OF inv i c] show ?thesis by (simp add: mk)
      qed
    qed
    show "\<And>i j. marked m i s' \<Longrightarrow> marked m j s' \<Longrightarrow> i = j"
      using invD_unique [OF inv] none by (auto simp: mk)
    show "\<And>i. marked m i s' \<Longrightarrow> \<exists>ts. sys_store s' m = Some ts \<and> t0 \<le> ts"
    proof -
      fix i assume mi: "marked m i s'"
      show "\<exists>ts. sys_store s' m = Some ts \<and> t0 \<le> ts"
      proof (cases "message_id body = m")
        case True
        then have "sys_store s' m = Some now"
          using m by (simp add: store mark_same)
        with t show ?thesis by blast
      next
        case False
        with mi have "marked m i s" by (simp add: mk)
        from invD_store [OF inv this] False show ?thesis
          by (simp add: store mark_other)
      qed
    qed
  qed
  then show ?thesis by (simp only: s'_def)
qed

lemma step_preserves:
  assumes inv: "inFlightInvariant bodies m t0 s"
    and m: "truthy m"
    and lo: "t0 \<le> event_time ev"
    and hi: "event_time ev \<le> t0 + MESSAGE_EXPIRY_MS"
  shows "inFlightInvariant bodies m t0 (step envs s ev)"
proof (cases ev)
  case (Timer now)
  from hi have "now \<le> t0 + MESSAGE_EXPIRY_MS" by (simp add: Timer)
  then show ?thesis unfolding Timer by (rule step_timer [OF inv])
next
  case (Run k now)
  from lo have t: "t0 \<le> now" by (simp add: Run)
  show ?thesis
  proof (cases "k < length (sys_tasks s)")
    case False
    then have "step envs s (Run k now) = s" by simp
    then show ?thesis unfolding Run using inv by (simp only:)
  next
    case k: True
    show ?thesis
    proof (cases "sys_tasks s ! k")
      case (Finished r)
      with k have "step envs s (Run k now) = s" by simp
      then show ?thesis unfolding Run using inv by (simp only:)
    next
      case (Awaiting body data)
      show ?thesis unfolding Run by (rule step_awaiting [OF inv k Awaiting])
    next
      case (Queued body)
      obtain store effects prog
        where hs: "handleStart (envs k) now body (sys_store s) = (store, effects, prog)"
        by (cases "handleStart (envs k) now body (sys_store s)") auto
      from handleStart_outcomes [OF hs] show ?thesis
      proof
        assume a: "store = sys_store s \<and> (\<forall>i. DedupMark i \<notin> set effects)
          \<and> (\<exists>r. prog = Done r)
          \<and> (event body \<noteq> JStr ''chat.started'' \<longrightarrow> \<not> list_ex isDomainEffect effects)"
        then obtain r where "prog = Done r" by blast
        with a hs have h: "handleStart (envs k) now body (sys_store s)
            = (sys_store s, effects, Done r)" by simp
        from a have nm: "\<forall>i. DedupMark i \<notin> set effects"
          and qu: "event body \<noteq> JStr ''chat.started'' \<longrightarrow> \<not> list_ex isDomainEffect effects"
          by blast+
        show ?thesis unfolding Run
          by (rule step_queued_done [where envs = envs, OF inv k Queued h nm qu])
      next
        assume b: "event body \<noteq> JStr ''chat.started''
          \<and> \<not> isDuplicateMessage (sys_store s) (message_id body)
          \<and> store = markMessageProcessed now (message_id body) (sys_store s)
          \<and> effects = [DedupCheck (message_id body), DedupMark (message_id body)]
          \<and> (\<exists>d. prog = Pending d)"
        then obtain d where "prog = Pending d" by blast
        with b hs have h: "handleStart (envs k) now body (sys_store s)
               = (markMessageProcessed now (message_id body) (sys_store s),
                  [DedupCheck (message_id body), DedupMark (message_id body)], Pending d)"
          by simp
        from b have fr: "\<not> isDuplicateMessage (sys_store s) (message_id body)" by blast
        show ?thesis unfolding Run
          by (rule step_queued_pending [where envs = envs, OF inv m k Queued t h fr])
      qed
    qed
  qed
qed

lemma run_preserves:
  assumes "inFlightInvariant bodies m t0 s" and "truthy m" and "withinWindow t0 schedule"
  shows "inFlightInvariant bodies m t0 (run_schedule envs schedule s)"
  using assms
proof (induction schedule arbitrary: s)
  case Nil
  then show ?case by (simp add: run_schedule_def)
next
  case (Cons ev schedule)
  from Cons.prems(3) have lo: "t0 \<le> event_time ev"
    and hi: "event_time ev \<le> t0 + MESSAGE_EXPIRY_MS"
    and rest: "withinWindow t0 schedule"
    by (simp_all add: withinWindow_def)
  have "inFlightInvariant bodies m t0 (step envs s ev)"
    by (rule step_preserves [OF Cons.prems(1) Cons.prems(2) lo hi])
  from Cons.IH [OF this Cons.prems(2) rest] show ?case
    by (simp add: run_schedule_def)
qed

lemma submitted_invariant: "inFlightInvariant bodies m t0 (submitted pm bodies)"
  by (rule invI) (simp_all add: submitted_def invoked_def marked_def)

lemma at_most_one_invokes:
  assumes "truthy m" and "withinWindow t0 schedule"
    and "i < length bodies" and "j < length bodies" and "i \<noteq> j"
    and "carries m (bodies ! i)" and "carries m (bodies ! j)"
  shows "\<not> (invoked i (run_schedule envs schedule (submitted pm bodies))
          \<and> invoked j (run_schedule envs schedule (submitted pm bodies)))"
proof
  let ?s = "run_schedule envs schedule (submitted pm bodies)"
  assume both: "invoked i ?s \<and> invoked j ?s"
  have inv: "inFlightInvariant bodies m t0 ?s"
    by (rule run_preserves [OF submitted_invariant assms(1) assms(2)])
  from invD_marked [OF inv assms(3) assms(6)] both have "marked m i ?s" by blast
  moreover from invD_marked [OF inv assms(4) assms(7)] both have "marked m j ?s" by blast
  ultimately have "i = j" by (rule invD_unique [OF inv])
  with assms(5) show False by simp
qed

text \<open>
  C1. (a) A request that is not a \<^verbatim>\<open>chat.started\<close> event, passes validation and
  carries a message id that is in the store (marked and not yet swept) is answered
  with status 200, \<^verbatim>\<open>success: true\<close>, \<^verbatim>\<open>skipped: true\<close> and reason
  \<^verbatim>\<open>duplicate_message\<close>; the only call made is the duplicate check, so neither the
  processing hook nor the delivery client is invoked, and the store is unchanged.
  (b) For a fresh id, the part of \<^verbatim>\<open>handle\<close> that runs before its first \<^verbatim>\<open>await\<close>
  checks and marks the id; the id is a duplicate from then on, and everything else
  (history fetch, hook, delivery) comes after the marking in the trace and touches
  the store no more.
  (c) Hence, for requests submitted together and run in any interleaving whose clock
  readings stay within one expiry period, of two requests that carry the same
  message id at most one invokes the hook or the delivery client.
\<close>

theorem duplicate_handling:
  "(event body \<noteq> JStr ''chat.started'' \<and> truthy (chat_id body)
      \<and> isDuplicateMessage pm (message_id body) \<longrightarrow>
      handle env now body pm
        = (pm, [DedupCheck (message_id body)], DuplicateSkipped (message_id body))
      \<and> http_status (snd (snd (handle env now body pm))) = 200
      \<and> success (snd (snd (handle env now body pm)))
      \<and> skipped (snd (snd (handle env now body pm)))
      \<and> reason (snd (snd (handle env now body pm))) = Some ''duplicate_message''
      \<and> \<not> list_ex isDomainEffect (fst (snd (handle env now body pm))))
   \<and> (event body \<noteq> JStr ''chat.started'' \<and> extractWebhookData body = Inr data
      \<and> truthy (message_id body) \<and> \<not> isDuplicateMessage pm (message_id body) \<longrightarrow>
      handleStart env now body pm
        = (markMessageProcessed now (message_id body) pm,
           [DedupCheck (message_id body), DedupMark (message_id body)], Pending data)
      \<and> isDuplicateMessage (fst (handleStart env now body pm)) (message_id body)
      \<and> handle env now body pm
        = (markMessageProcessed now (message_id body) pm,
           DedupCheck (message_id body) # DedupMark (message_id body)
             # fst (handleRest env body data),
           snd (handleRest env body data))
      \<and> \<not> list_ex isDedupEffect (fst (handleRest env body data)))
   \<and> (truthy m \<and> withinWindow t0 schedule
      \<and> i < length bodies \<and> j < length bodies \<and> i \<noteq> j
      \<and> carries m (bodies ! i) \<and> carries m (bodies ! j) \<longrightarrow>
      \<not> (invoked i (run_schedule envs schedule (submitted pm0 bodies))
         \<and> invoked j (run_schedule envs schedule (submitted pm0 bodies))))"
proof -
  have a: "event body \<noteq> JStr ''chat.started'' \<and> truthy (chat_id body)
      \<and> isDuplicateMessage pm (message_id body) \<longrightarrow>
      handle env now body pm
        = (pm, [DedupCheck (message_id body)], DuplicateSkipped (message_id body))
      \<and> http_status (snd (snd (handle env now body pm))) = 200
      \<and> success (snd (snd (handle env now body pm)))
      \<and> skipped (snd (snd (handle env now body pm)))
      \<and> reason (snd (snd (handle env now body pm))) = Some ''duplicate_message''
      \<and> \<not> list_ex isDomainEffect (fst (snd (handle env now body pm)))"
    by (simp add: handle_def handleStart_duplicate)
  have b: "event body \<noteq> JStr ''chat.started'' \<and> extractWebhookData body = Inr data
      \<and> truthy (message_id body) \<and> \<not> isDuplicateMessage pm (message_id body) \<longrightarrow>
      handleStart env now body pm
        = (markMessageProcessed now (message_id body) pm,
           [DedupCheck (message_id body), DedupMark (message_id body)], Pending data)
      \<and> isDuplicateMessage (fst (handleStart env now body pm)) (message_id body)
      \<and> handle env now body pm
        = (markMessageProcessed now (message_id body) pm,
           DedupCheck (message_id body) # DedupMark (message_id body)
             # fst (handleRest env body data),
           snd (handleRest env body data))
      \<and> \<not> list_ex isDedupEffect (fst (handleRest env body data))"
    using handleRest_no_dedup [of env body data]
    by (simp add: handleStart_fresh handle_fresh isDuplicateMessage_def mark_same)
  have c: "truthy m \<and> withinWindow t0 schedule
      \<and> i < length bodies \<and> j < length bodies \<and> i \<noteq> j
      \<and> carries m (bodies ! i) \<and> carries m (bodies ! j) \<longrightarrow>
      \<not> (invoked i (run_schedule envs schedule (submitted pm0 bodies))
         \<and> invoked j (run_schedule envs schedule (submitted pm0 bodies)))"
    using at_most_one_invokes [of m t0 schedule i bodies j envs pm0] by blast
  from a b c show ?thesis by blast
qed

lemma two_deliveries_log:
  "sys_log (run_schedule (\<lambda>i. replyingAgent)
       [Run 0 0, Run 1 1, Run 0 2, Timer 60000, Run 1 60001]
       (submitted Map.empty
          [messageEvent (JStr ''chat-1'') (JStr ''m42''),
           messageEvent (JStr ''chat-1'') (JStr ''m42'')]))
     = [(0, DedupCheck (JStr ''m42'')), (0, DedupMark (JStr ''m42'')),
        (1, DedupCheck (JStr ''m42'')),
        (0, HistoryFetch (JStr ''chat-1'')), (0, DomainHook),
        (0, Deliver (JStr ''chat-1'') (JStr ''Hello!''))]"
  by (simp add: run_schedule_def submitted_def handleStart_def extractWebhookData_def
        messageEvent_def orElse_def isDuplicateMessage_def markMessageProcessed_def
        replying_run [unfolded messageEvent_def] sweep_def MESSAGE_EXPIRY_MS_def)

theorem duplicate_handling_witness:
  "truthy (JStr ''m42'')
   \<and> withinWindow 0 [Run 0 0, Run 1 1, Run 0 2, Timer 60000, Run 1 60001]
   \<and> carries (JStr ''m42'')
        ([messageEvent (JStr ''chat-1'') (JStr ''m42''),
          messageEvent (JStr ''chat-1'') (JStr ''m42'')] ! 0)
   \<and> carries (JStr ''m42'')
        ([messageEvent (JStr ''chat-1'') (JStr ''m42''),
          messageEvent (JStr ''chat-1'') (JStr ''m42'')] ! 1)
   \<and> invoked 0 (run_schedule (\<lambda>i. replyingAgent)
        [Run 0 0, Run 1 1, Run 0 2, Timer 60000, Run 1 60001]
        (submitted Map.empty
           [messageEvent (JStr ''chat-1'') (JStr ''m42''),
            messageEvent (JStr ''chat-1'') (JStr ''m42'')]))
   \<and> \<not> invoked 1 (run_schedule (\<lambda>i. replyingAgent)
        [Run 0 0, Run 1 1, Run 0 2, Timer 60000, Run 1 60001]
        (submitted Map.empty
           [messageEvent (JStr ''chat-1'') (JStr ''m42''),
            messageEvent (JStr ''chat-1'') (JStr ''m42'')]))
   \<and> isDuplicateMessage [JStr ''m42'' \<mapsto> 0]
        (message_id (messageEvent (JStr ''chat-1'') (JStr ''m42'')))
   \<and> handle replyingAgent 5 (messageEvent (JStr ''chat-1'') (JStr ''m42''))
        [JStr ''m42'' \<mapsto> 0]
       = ([JStr ''m42'' \<mapsto> 0], [DedupCheck (JStr ''m42'')],
          DuplicateSkipped (JStr ''m42''))"
proof -
  let ?body = "messageEvent (JStr ''chat-1'') (JStr ''m42'')"
  let ?bodies = "[?body, ?body]"
  let ?schedule = "[Run 0 0, Run 1 1, Run 0 2, Timer 60000, Run 1 60001]"
  let ?s = "run_schedule (\<lambda>i. replyingAgent) ?schedule (submitted Map.empty ?bodies)"
  let ?data = "\<lparr>data_chatId = JStr ''chat-1'', data_agentId = JStr ''agent-1'',
      data_messageId = JStr ''m42'', data_userMessage = JStr ''hi'',
      data_imageUrl = JNull\<rparr>"
  have t: "truthy (JStr ''m42'')" by simp
  have w: "withinWindow 0 ?schedule"
    by (simp add: withinWindow_def MESSAGE_EXPIRY_MS_def)
  have c0: "carries (JStr ''m42'') (?bodies ! 0)" and c1: "carries (JStr ''m42'') (?bodies ! 1)"
    by (simp_all add: carries_def messageEvent_def)
  have e: "event ?body \<noteq> JStr ''chat.started''" and v: "truthy (chat_id ?body)"
    and id: "message_id ?body = JStr ''m42''"
    by (simp_all add: messageEvent_def)
  have d: "isDuplicateMessage [JStr ''m42'' \<mapsto> 0] (message_id ?body)"
    by (simp add: id isDuplicateMessage_def)
  have i0: "invoked 0 ?s"
    unfolding invoked_def two_deliveries_log by simp
  have l: "(0::nat) < length ?bodies" "(1::nat) < length ?bodies" "(0::nat) \<noteq> 1"
    by simp_all
  note inst = duplicate_handling [of ?body "[JStr ''m42'' \<mapsto> 0]" replyingAgent 5 ?data
      "JStr ''m42''" 0 ?schedule 0 ?bodies 1 "\<lambda>i. replyingAgent" Map.empty]
  from inst t w l c0 c1 have "\<not> (invoked 0 ?s \<and> invoked 1 ?s)" by blast
  with i0 have i1: "\<not> invoked 1 ?s" by blast
  from inst e v d have "handle replyingAgent 5 ?body [JStr ''m42'' \<mapsto> 0]
       = ([JStr ''m42'' \<mapsto> 0], [DedupCheck (message_id ?body)],
          DuplicateSkipped (message_id ?body))"
    by blast
  then have h: "handle replyingAgent 5 ?body [JStr ''m42'' \<mapsto> 0]
       = ([JStr ''m42'' \<mapsto> 0], [DedupCheck (JStr ''m42'')],
          DuplicateSkipped (JStr ''m42''))"
    by (simp only: id)
  from t w c0 c1 i0 i1 d h show ?thesis by blast
qed

end
